theory Spec2Isabelle
  imports Complex_Main "HOL-Library.Multiset"
begin

section \<open>JavaScript values used by the services\<close>

text \<open>
  A JavaScript number is an IEEE double. The services only compare numbers, take
  \<open>Math.min\<close>/\<open>Math.max\<close> of them and look at the sign of a difference; all of
  these are exact on doubles, so a finite double is modelled by the real it denotes,
  next to the two infinities and \<open>NaN\<close>. (\<open>-0\<close> and \<open>+0\<close> are both \<open>Fin 0\<close>:
  both are falsy and compare equal.)
\<close>

datatype jsnum = NaN | NegInf | Fin real | PosInf

text \<open>\<open>x <= y\<close> on numbers: false as soon as one side is \<open>NaN\<close>.\<close>

fun js_le :: "jsnum \<Rightarrow> jsnum \<Rightarrow> bool" where
  "js_le NaN y = False"
| "js_le x NaN = False"
| "js_le NegInf y = True"
| "js_le x PosInf = True"
| "js_le (Fin a) (Fin b) = (a \<le> b)"
| "js_le PosInf y = False"
| "js_le (Fin a) NegInf = False"

text \<open>\<open>x >= y\<close>.\<close>

definition js_ge :: "jsnum \<Rightarrow> jsnum \<Rightarrow> bool" where
  "js_ge x y = js_le y x"

text \<open>\<open>Math.min\<close> and \<open>Math.max\<close> of two numbers: \<open>NaN\<close> if either is.\<close>

definition Math_min :: "jsnum \<Rightarrow> jsnum \<Rightarrow> jsnum" where
  "Math_min a b = (if a = NaN \<or> b = NaN then NaN else if js_le a b then a else b)"

definition Math_max :: "jsnum \<Rightarrow> jsnum \<Rightarrow> jsnum" where
  "Math_max a b = (if a = NaN \<or> b = NaN then NaN else if js_le a b then b else a)"

text \<open>Membership of a number in the closed interval \<open>[lo, hi]\<close> of reals.\<close>

fun in_range :: "real \<Rightarrow> real \<Rightarrow> jsnum \<Rightarrow> bool" where
  "in_range lo hi (Fin r) = (lo \<le> r \<and> r \<le> hi)"
| "in_range lo hi NaN = False"
| "in_range lo hi NegInf = False"
| "in_range lo hi PosInf = False"

text \<open>
  What \<open>JSON.parse\<close> returns: \<open>null\<close>, a boolean, a number, a string, an array or an
  object (its own properties in insertion order, each key once). A property read
  that finds nothing gives \<open>undefined\<close>, modelled by \<open>None\<close> of \<open>json option\<close>.
\<close>

datatype json =
  JNull
| JBool bool
| JNum jsnum
| JStr string
| JArr "json list"
| JObj "(string \<times> json) list"

text \<open>
  \<open>result.name\<close> on a parsed value other than \<open>null\<close>, for the property names the
  classifier reads (none of them is defined on a prototype): an object gives its own
  property, every other value gives \<open>undefined\<close>. On \<open>null\<close> the read throws a
  TypeError, which the caller checks first.
\<close>

fun get_prop :: "json \<Rightarrow> string \<Rightarrow> json option" where
  "get_prop (JObj kvs) k = map_of kvs k"
| "get_prop v k = None"

text \<open>Truthiness of a value that may be \<open>undefined\<close>.\<close>

fun truthy :: "json option \<Rightarrow> bool" where
  "truthy None = False"
| "truthy (Some JNull) = False"
| "truthy (Some (JBool b)) = b"
| "truthy (Some (JNum n)) = (n \<noteq> Fin 0 \<and> n \<noteq> NaN)"
| "truthy (Some (JStr s)) = (s \<noteq> [])"
| "truthy (Some (JArr xs)) = True"
| "truthy (Some (JObj kvs)) = True"

text \<open>\<open>v || d\<close>.\<close>

definition or_else :: "json option \<Rightarrow> json \<Rightarrow> json" where
  "or_else v d = (if truthy v then the v else d)"

text \<open>
  The built-ins of the JavaScript platform that the services call and that are not part
  of the repository are parameters of the model:
  \<^item> \<open>JSON_parse\<close>: \<open>JSON.parse\<close>, \<open>None\<close> when it throws a SyntaxError;
  \<^item> \<open>parseFloat\<close>: \<open>parseFloat\<close>, which never throws and returns \<open>NaN\<close> for a text
    with no numeric prefix;
  \<^item> \<open>StringToNumber\<close>: the coercion of a string to a number;
  \<^item> \<open>ObjectToNumber\<close>: the coercion of an array or object to a number (ToPrimitive,
    then ToNumber), \<open>None\<close> when it throws a TypeError;
  \<^item> \<open>toLowerCase\<close>: \<open>String.prototype.toLowerCase\<close>;
  \<^item> \<open>replace_first\<close>: \<open>String.prototype.replace\<close> with a string pattern;
  \<^item> \<open>toLocaleDateString\<close>: \<open>new Date(t).toLocaleDateString()\<close>;
  \<^item> \<open>NumberToString\<close>: the text of a number inside a template literal.
\<close>

record platform =
  JSON_parse :: "string \<Rightarrow> json option"
  parseFloat :: "string \<Rightarrow> jsnum"
  StringToNumber :: "string \<Rightarrow> jsnum"
  ObjectToNumber :: "json \<Rightarrow> jsnum option"
  toLowerCase :: "string \<Rightarrow> string"
  replace_first :: "string \<Rightarrow> string \<Rightarrow> string \<Rightarrow> string"
  toLocaleDateString :: "jsnum \<Rightarrow> string"
  NumberToString :: "jsnum \<Rightarrow> string"

text \<open>
  The coercion \<open>Math.min\<close> and \<open>Math.max\<close> apply to an argument that came out of
  \<open>JSON.parse\<close>; \<open>None\<close> is a thrown TypeError.
\<close>

fun ToNumber :: "platform \<Rightarrow> json \<Rightarrow> jsnum option" where
  "ToNumber P JNull = Some (Fin 0)"
| "ToNumber P (JBool b) = Some (Fin (if b then 1 else 0))"
| "ToNumber P (JNum n) = Some n"
| "ToNumber P (JStr s) = Some (StringToNumber P s)"
| "ToNumber P (JArr xs) = ObjectToNumber P (JArr xs)"
| "ToNumber P (JObj kvs) = ObjectToNumber P (JObj kvs)"

text \<open>
  A platform for running the services on chosen texts: \<open>JSON.parse\<close>, \<open>parseFloat\<close> and
  the string coercion are given by finite tables (a text outside the parse table is
  rejected, a text outside the number table is not numeric). The examples below use
  no other built-in; the remaining ones are filled in with \<open>NaN\<close> (the coercion of a
  plain object), the identity and the empty text.
\<close>

definition table_platform :: "(string \<times> json) list \<Rightarrow> (string \<times> jsnum) list \<Rightarrow> platform" where
  "table_platform parses numbers =
     \<lparr> JSON_parse = map_of parses,
       parseFloat = (\<lambda>s. case map_of numbers s of Some n \<Rightarrow> n | None \<Rightarrow> NaN),
       StringToNumber = (\<lambda>s. case map_of numbers s of Some n \<Rightarrow> n | None \<Rightarrow> NaN),
       ObjectToNumber = (\<lambda>v. Some NaN),
       toLowerCase = (\<lambda>s. s),
       replace_first = (\<lambda>s pat rep. s),
       toLocaleDateString = (\<lambda>t. []),
       NumberToString = (\<lambda>n. []) \<rparr>"

text \<open>An awaited promise of a collaborator: it rejects, or it resolves to a value.\<close>

datatype 'a settled = Rejected | Resolved 'a

text \<open>An \<open>LLMProvider\<close>: \<open>generateCompletion\<close> as a function of the prompt.\<close>

type_synonym llm_provider = "string \<Rightarrow> string settled"

text \<open>A provider that answers every prompt with the same text, as \<open>MockLLMProvider\<close> does.\<close>

definition fixed_provider :: "string \<Rightarrow> llm_provider" where
  "fixed_provider response = (\<lambda>prompt. Resolved response)"

text \<open>A provider whose call fails.\<close>

definition failing_provider :: llm_provider where
  "failing_provider = (\<lambda>prompt. Rejected)"

section \<open>ClassificationService\<close>

text \<open>
  \<open>NarrativeClassification\<close> as the service builds it at run time: the text fields
  carry whatever the parsed response held, the two scores are numbers,
  \<open>user_state\<close> and \<open>scene_details\<close> may be absent.
\<close>

record NarrativeClassification =
  observation_c :: json
  user_state_c :: "json option"
  scene_details_c :: "json option"
  importance_c :: jsnum
  emotion_score_c :: jsnum
  focus_area_c :: json
  interaction_type_c :: json
  suggested_links_c :: "json list"

definition dq :: string where
  "dq = [CHR 0x22]"

definition nl :: string where
  "nl = [CHR 0x0A]"

text \<open>\<open>contextPrompt\<close> of \<open>classifyWithLLM\<close>; an absent or empty \<open>userContext\<close> is falsy.\<close>

definition contextPrompt :: "string \<Rightarrow> string option \<Rightarrow> string" where
  "contextPrompt text_in userContext =
     (case userContext of
        None \<Rightarrow> ''Text to analyze: '' @ dq @ text_in @ dq
      | Some uc \<Rightarrow>
          if uc \<noteq> [] then ''User message: '' @ dq @ uc @ dq @ nl @ ''AI response: '' @ dq @ text_in @ dq
          else ''Text to analyze: '' @ dq @ text_in @ dq)"

definition classification_prompt :: "string \<Rightarrow> string option \<Rightarrow> string" where
  "classification_prompt text_in userContext =
     ''Analyze the following interaction and provide a JSON response. Only respond with valid JSON, no markdown:'' @ nl @
     ''    {'' @ nl @
     ''      '' @ dq @ ''observation'' @ dq @ '': '' @ dq @ ''Write a narrative description of the interaction, including behavioral and emotional observations'' @ dq @ '','' @ nl @
     ''      '' @ dq @ ''user_state'' @ dq @ '': '' @ dq @ ''A simple string describing user's emotional and behavioral state'' @ dq @ '','' @ nl @
     ''      '' @ dq @ ''scene_details'' @ dq @ '': '' @ dq @ ''A simple string describing contextual and environmental details'' @ dq @ '','' @ nl @
     ''      '' @ dq @ ''importance'' @ dq @ '': 0.5,'' @ nl @
     ''      '' @ dq @ ''emotion_score'' @ dq @ '': 0,'' @ nl @
     ''      '' @ dq @ ''focus_area'' @ dq @ '': '' @ dq @ ''general'' @ dq @ '','' @ nl @
     ''      '' @ dq @ ''interaction_type'' @ dq @ '': '' @ dq @ ''general'' @ dq @ '','' @ nl @
     ''      '' @ dq @ ''suggested_links'' @ dq @ '': []'' @ nl @
     ''    }'' @ nl @
     ''    '' @ nl @
     ''    '' @ contextPrompt text_in userContext @ nl @
     ''    ''"

text \<open>\<open>clamp(value, min, max) = Math.max(min, Math.min(max, value))\<close>.\<close>

definition clamp :: "jsnum \<Rightarrow> jsnum \<Rightarrow> jsnum \<Rightarrow> jsnum" where
  "clamp v lo hi = Math_max lo (Math_min hi v)"

definition getDefaultClassification :: NarrativeClassification where
  "getDefaultClassification =
     \<lparr> observation_c = JStr [],
       user_state_c = None,
       scene_details_c = None,
       importance_c = Fin (1/2),
       emotion_score_c = Fin 0,
       focus_area_c = JStr ''general'',
       interaction_type_c = JStr ''general'',
       suggested_links_c = [] \<rparr>"

text \<open>
  The object literal in the \<open>try\<close> block of \<open>classifyWithLLM\<close>, built from the parsed
  response. \<open>None\<close> is a TypeError thrown while building it: reading a property of
  \<open>null\<close>, or a coercion inside \<open>Math.min\<close> that throws.
\<close>

definition build_classification :: "platform \<Rightarrow> json \<Rightarrow> NarrativeClassification option" where
  "build_classification P result =
     (if result = JNull then None
      else
        case ToNumber P (or_else (get_prop result ''importance'') (JNum (Fin (1/2)))) of
          None \<Rightarrow> None
        | Some i \<Rightarrow>
           (case ToNumber P (or_else (get_prop result ''emotion_score'') (JNum (Fin 0))) of
              None \<Rightarrow> None
            | Some e \<Rightarrow>
                Some \<lparr> observation_c = or_else (get_prop result ''observation'') (JStr ''User and AI engaged in conversation.''),
                       user_state_c = Some (or_else (get_prop result ''user_state'') (JStr ''Neutral, engaging in conversation'')),
                       scene_details_c = Some (or_else (get_prop result ''scene_details'')
                          (JStr ''The interaction is at an early stage, with no specific context established yet.'')),
                       importance_c = clamp i (Fin 0) (Fin 1),
                       emotion_score_c = clamp e (Fin (-1)) (Fin 1),
                       focus_area_c = or_else (get_prop result ''focus_area'') (JStr ''general''),
                       interaction_type_c = or_else (get_prop result ''interaction_type'') (JStr ''general''),
                       suggested_links_c = (case get_prop result ''suggested_links'' of
                                              Some (JArr xs) \<Rightarrow> xs | _ \<Rightarrow> []) \<rparr>))"

text \<open>
  \<open>classifyWithLLM\<close>: everything after the prompt is inside \<open>try\<close>, and the \<open>catch\<close>
  returns the default record, so the function always returns.
\<close>

definition classifyWithLLM :: "platform \<Rightarrow> llm_provider \<Rightarrow> string \<Rightarrow> string option \<Rightarrow> NarrativeClassification" where
  "classifyWithLLM P llm text_in userContext =
     (case llm (classification_prompt text_in userContext) of
        Rejected \<Rightarrow> getDefaultClassification
      | Resolved response \<Rightarrow>
         (case JSON_parse P response of
            None \<Rightarrow> getDefaultClassification
          | Some result \<Rightarrow>
             (case build_classification P result of
                None \<Rightarrow> getDefaultClassification
              | Some c \<Rightarrow> c)))"

text \<open>
  \<open>classifyMemory\<close> awaits \<open>classifyWithLLM\<close> inside a second \<open>try\<close>; the inner function
  never throws, so the outer \<open>catch\<close> is never entered.
\<close>

definition classifyMemory :: "platform \<Rightarrow> llm_provider \<Rightarrow> string \<Rightarrow> string option \<Rightarrow> NarrativeClassification" where
  "classifyMemory P llm text_in userContext = classifyWithLLM P llm text_in userContext"

definition similarity_prompt :: "string \<Rightarrow> string \<Rightarrow> string" where
  "similarity_prompt text1 text2 =
     ''Compare these two texts and rate their similarity from 0 to 1, where 1 means identical in meaning and 0 means completely unrelated:'' @ nl @
     nl @
     ''Text 1: '' @ dq @ text1 @ dq @ nl @
     ''Text 2: '' @ dq @ text2 @ dq @ nl @
     nl @
     ''Respond with only a number between 0 and 1.''"

text \<open>
  \<open>analyzeSimilarity\<close>: the \<open>catch\<close> returns 0 when the provider's call rejects;
  \<open>parseFloat\<close> and \<open>clamp\<close> do not throw.
\<close>

definition analyzeSimilarity :: "platform \<Rightarrow> llm_provider \<Rightarrow> string \<Rightarrow> string \<Rightarrow> jsnum" where
  "analyzeSimilarity P llm text1 text2 =
     (case llm (similarity_prompt text1 text2) of
        Rejected \<Rightarrow> Fin 0
      | Resolved response \<Rightarrow> clamp (parseFloat P response) (Fin 0) (Fin 1))"

section \<open>MemoryManager\<close>

text \<open>
  \<open>linked_memories\<close> is a JavaScript array: \<open>linkMemories\<close> pushes onto it in place,
  and \<open>createMemory\<close> and \<open>updateMemory\<close> store the very array object the caller
  passes. Two records can therefore hold the same array, and a push through one is
  seen through the other. The arrays live in an explicit heap, and a record holds the
  address of its array. The \<open>Memory\<close> objects themselves are kept by value under their
  key: \<open>initialize\<close>, \<open>createMemory\<close> and \<open>updateMemory\<close> put a new object under
  a key, so no object sits under two keys, and the one place where two names denote
  one object, \<open>linkMemories(a, a)\<close>, goes through the array in the heap.

  The fields \<open>id\<close>, \<open>text\<close> and \<open>context\<close> of \<open>Memory\<close> are \<open>id_mem\<close>, \<open>text_mem\<close> and
  \<open>context_mem\<close> here.
\<close>

type_synonym ref = nat

record conversation_t =
  agent_messages :: "string list"
  user_messages :: "string list"

record context_t =
  focus_area :: string
  user_state :: string
  scene_details :: string
  interaction_type :: string
  extension :: "(string \<times> json) list"

record memory =
  id_mem :: string
  text_mem :: string
  glimpse_id :: string
  observation :: string
  conversation :: conversation_t
  context_mem :: context_t
  importance :: jsnum
  emotion_score :: jsnum
  linked_memories :: ref
  created_at :: jsnum
  last_accessed :: "jsnum option"
  metadata :: "(string \<times> json) list option"

text \<open>
  The manager's state: \<open>memories\<close> is the \<open>Map<string, Memory>\<close> as its entries in
  insertion order (each key once); \<open>arrays\<close> is the heap of \<open>linked_memories\<close> arrays and
  \<open>fresh\<close> the first address not yet in use.
\<close>

record manager =
  memories :: "(string \<times> memory) list"
  arrays :: "ref \<Rightarrow> string list"
  fresh :: ref

text \<open>\<open>Map.prototype.set\<close>: an existing key keeps its place, a new key goes last.\<close>

fun map_set :: "(string \<times> 'v) list \<Rightarrow> string \<Rightarrow> 'v \<Rightarrow> (string \<times> 'v) list" where
  "map_set [] k v = [(k, v)]"
| "map_set ((k', v') # rest) k v =
     (if k' = k then (k, v) # rest else (k', v') # map_set rest k v)"

text \<open>\<open>Map.prototype.get\<close>; \<open>None\<close> is \<open>undefined\<close>.\<close>

definition map_get :: "(string \<times> 'v) list \<Rightarrow> string \<Rightarrow> 'v option" where
  "map_get entries k = map_of entries k"

text \<open>\<open>Map.prototype.delete\<close>.\<close>

definition map_delete :: "(string \<times> 'v) list \<Rightarrow> string \<Rightarrow> (string \<times> 'v) list" where
  "map_delete entries k = filter (\<lambda>e. fst e \<noteq> k) entries"

text \<open>The array a record links to, read from the heap.\<close>

definition linked :: "manager \<Rightarrow> memory \<Rightarrow> string list" where
  "linked s m = arrays s (linked_memories m)"

text \<open>Evaluating an array literal: a new array at the first unused address.\<close>

definition new_array :: "manager \<Rightarrow> string list \<Rightarrow> ref \<times> manager" where
  "new_array s xs = (fresh s, s\<lparr>arrays := (arrays s)(fresh s := xs), fresh := Suc (fresh s)\<rparr>)"

text \<open>
  \<open>initialize\<close>: the map is cleared and every loaded record is set under its own id.
  The loaded records come with the heap that holds their arrays.
\<close>

definition initialize :: "memory list \<Rightarrow> (ref \<Rightarrow> string list) \<Rightarrow> ref \<Rightarrow> manager" where
  "initialize memoriesArray h n =
     \<lparr> memories = foldl (\<lambda>entries m. map_set entries (id_mem m) m) [] memoriesArray,
       arrays = h,
       fresh = n \<rparr>"

datatype error = MemoryNotFound string | LinkNotFound

text \<open>
  The argument of \<open>createMemory\<close>, \<open>Omit<Memory, 'id' | 'created_at' | 'glimpse_id'>\<close>. The
  three fields the function defends with \<open>||\<close> may be absent at run time.
\<close>

record draft =
  d_text :: string
  d_observation :: "string option"
  d_conversation :: "conversation_t option"
  d_context :: context_t
  d_importance :: jsnum
  d_emotion_score :: jsnum
  d_linked_memories :: "ref option"
  d_last_accessed :: "jsnum option"
  d_metadata :: "(string \<times> json) list option"

text \<open>
  What \<open>createMemory\<close> draws from the clock and the random generator:
  the text of \<open>Date.now()\<close> inside the id, \<open>Math.random().toString(36).substr(2, 9)\<close>,
  \<open>Math.random().toString(16).substring(2, 10)\<close>, and \<open>Date.now()\<close> for \<open>created_at\<close>.
\<close>

record generated =
  now_text :: string
  random36 :: string
  random16 :: string
  now :: jsnum

definition generateGlimpseId :: "generated \<Rightarrow> string" where
  "generateGlimpseId g = ''>gl'' @ random16 g"

text \<open>
  \<open>createMemory\<close>. \<open>saveMemories\<close> and \<open>emit\<close> act on the storage provider and on the
  listeners; they leave the map and the arrays as they are and are not part of the
  state. (When the provider's save rejects, the call rejects after the map has been
  changed as below.)
\<close>

text \<open>The object literal \<open>newMemory\<close>, with \<open>r\<close> the array it ends up holding.\<close>

definition newMemory :: "draft \<Rightarrow> generated \<Rightarrow> ref \<Rightarrow> memory" where
  "newMemory d g r =
     \<lparr> id_mem = ''mem_'' @ now_text g @ ''_'' @ random36 g,
       text_mem = d_text d,
       glimpse_id = generateGlimpseId g,
       observation = (case d_observation d of Some ob \<Rightarrow> ob | None \<Rightarrow> []),
       conversation = (case d_conversation d of Some c \<Rightarrow> c
                       | None \<Rightarrow> \<lparr> agent_messages = [], user_messages = [] \<rparr>),
       context_mem = d_context d,
       importance = d_importance d,
       emotion_score = d_emotion_score d,
       linked_memories = r,
       created_at = now g,
       last_accessed = d_last_accessed d,
       metadata = d_metadata d \<rparr>"

definition createMemory :: "manager \<Rightarrow> draft \<Rightarrow> generated \<Rightarrow> manager \<times> memory" where
  "createMemory s d g =
     (case (case d_linked_memories d of Some r \<Rightarrow> (r, s) | None \<Rightarrow> new_array s []) of
        (r, s1) \<Rightarrow>
          (s1\<lparr>memories := map_set (memories s1) (id_mem (newMemory d g r)) (newMemory d g r)\<rparr>,
           newMemory d g r))"

text \<open>The argument of \<open>updateMemory\<close>, \<open>Partial<Memory>\<close>: every field may be absent.\<close>

record partial =
  p_id :: "string option"
  p_text :: "string option"
  p_glimpse_id :: "string option"
  p_observation :: "string option"
  p_conversation :: "conversation_t option"
  p_context :: "context_t option"
  p_importance :: "jsnum option"
  p_emotion_score :: "jsnum option"
  p_linked_memories :: "ref option"
  p_created_at :: "jsnum option"
  p_last_accessed :: "jsnum option"
  p_metadata :: "(string \<times> json) list option"

text \<open>\<open>{...memory, ...updates}[field]\<close>: the update's value when it has one.\<close>

definition spread :: "'a \<Rightarrow> 'a option \<Rightarrow> 'a" where
  "spread old upd = (case upd of Some v \<Rightarrow> v | None \<Rightarrow> old)"

text \<open>The object literal \<open>updatedMemory\<close>.\<close>

definition updatedMemory :: "memory \<Rightarrow> string \<Rightarrow> partial \<Rightarrow> memory" where
  "updatedMemory m i updates =
     \<lparr> id_mem = i,
       text_mem = spread (text_mem m) (p_text updates),
       glimpse_id = glimpse_id m,
       observation = spread (observation m) (p_observation updates),
       conversation = spread (conversation m) (p_conversation updates),
       context_mem = spread (context_mem m) (p_context updates),
       importance = spread (importance m) (p_importance updates),
       emotion_score = spread (emotion_score m) (p_emotion_score updates),
       linked_memories = spread (linked_memories m) (p_linked_memories updates),
       created_at = created_at m,
       last_accessed = (case p_last_accessed updates of Some t \<Rightarrow> Some t | None \<Rightarrow> last_accessed m),
       metadata = (case p_metadata updates of Some md \<Rightarrow> Some md | None \<Rightarrow> metadata m) \<rparr>"

definition updateMemory :: "manager \<Rightarrow> string \<Rightarrow> partial \<Rightarrow> error + manager \<times> memory" where
  "updateMemory s i updates =
     (case map_get (memories s) i of
        None \<Rightarrow> Inl (MemoryNotFound i)
      | Some m \<Rightarrow>
          Inr (s\<lparr>memories := map_set (memories s) i (updatedMemory m i updates)\<rparr>,
               updatedMemory m i updates))"

text \<open>
  The loop of \<open>deleteMemory\<close> over the remaining entries: a record whose array includes
  the id gets a new, filtered array (\<open>filter\<close> builds a new array and leaves the old
  one as it is); the other records are left alone.
\<close>

fun cascade :: "string \<Rightarrow> (string \<times> memory) list \<Rightarrow> (ref \<Rightarrow> string list) \<Rightarrow> ref
                \<Rightarrow> (string \<times> memory) list \<times> (ref \<Rightarrow> string list) \<times> ref" where
  "cascade i [] h n = ([], h, n)"
| "cascade i ((k, mem) # rest) h n =
     (if i \<in> set (h (linked_memories mem))
      then (case cascade i rest (h(n := filter (\<lambda>linkId. linkId \<noteq> i) (h (linked_memories mem)))) (Suc n) of
              (rest', h', n') \<Rightarrow> ((k, mem\<lparr>linked_memories := n\<rparr>) # rest', h', n'))
      else (case cascade i rest h n of
              (rest', h', n') \<Rightarrow> ((k, mem) # rest', h', n')))"

definition deleteMemory :: "manager \<Rightarrow> string \<Rightarrow> error + manager" where
  "deleteMemory s i =
     (case map_get (memories s) i of
        None \<Rightarrow> Inl (MemoryNotFound i)
      | Some m \<Rightarrow>
         (case cascade i (map_delete (memories s) i) (arrays s) (fresh s) of
            (entries, h, n) \<Rightarrow> Inr (s\<lparr>memories := entries, arrays := h, fresh := n\<rparr>)))"

text \<open>\<open>array.push(x)\<close> on the array at address \<open>r\<close>.\<close>

definition push :: "(ref \<Rightarrow> string list) \<Rightarrow> ref \<Rightarrow> string \<Rightarrow> (ref \<Rightarrow> string list)" where
  "push h r x = h(r := h r @ [x])"

text \<open>
  \<open>linkMemories\<close>: the second test reads the target's array after the first push, which
  matters when source and target are one record or hold one array.
\<close>

definition linkMemories :: "manager \<Rightarrow> string \<Rightarrow> string \<Rightarrow> error + manager" where
  "linkMemories s sourceId targetId =
     (case map_get (memories s) sourceId of
        None \<Rightarrow> Inl LinkNotFound
      | Some sourceMemory \<Rightarrow>
         (case map_get (memories s) targetId of
            None \<Rightarrow> Inl LinkNotFound
          | Some targetMemory \<Rightarrow>
              let h1 = (if targetId \<notin> set (arrays s (linked_memories sourceMemory))
                        then push (arrays s) (linked_memories sourceMemory) targetId
                        else arrays s);
                  h2 = (if sourceId \<notin> set (h1 (linked_memories targetMemory))
                        then push h1 (linked_memories targetMemory) sourceId
                        else h1)
              in Inr (s\<lparr>arrays := h2\<rparr>)))"

text \<open>\<open>getMemory\<close> touches \<open>last_accessed\<close> of the record it finds.\<close>

definition getMemory :: "manager \<Rightarrow> string \<Rightarrow> jsnum \<Rightarrow> manager \<times> memory option" where
  "getMemory s i t =
     (case map_get (memories s) i of
        None \<Rightarrow> (s, None)
      | Some m \<Rightarrow>
          (s\<lparr>memories := map_set (memories s) i (m\<lparr>last_accessed := Some t\<rparr>)\<rparr>,
           Some (m\<lparr>last_accessed := Some t\<rparr>)))"

definition getAllMemories :: "manager \<Rightarrow> memory list" where
  "getAllMemories s = map snd (memories s)"

subsection \<open>searchMemories\<close>

text \<open>\<open>AgentPersonality\<close>; the parts \<open>formatPersonality\<close> tests for may be absent.\<close>

record agent_t =
  id_agent :: string
  name :: string
  description :: string

record communication_t =
  style :: string
  tone :: string
  patterns :: "string list"

record AgentPersonality =
  agent :: "agent_t option"
  traits :: "(string \<times> jsnum) list option"
  values_p :: "string list option"
  communication :: "communication_t option"

record MemorySearchParams =
  query :: "string option"
  importance_threshold :: "jsnum option"
  emotion_threshold :: "jsnum option"
  focus_area_p :: "string option"
  limit :: "jsnum option"
  from_date :: "jsnum option"
  to_date :: "jsnum option"
  memories_p :: "memory list option"
  personality :: "AgentPersonality option"

text \<open>\<open>s.startsWith(q)\<close> and \<open>s.includes(q)\<close> on strings.\<close>

fun starts_with :: "string \<Rightarrow> string \<Rightarrow> bool" where
  "starts_with s [] = True"
| "starts_with [] (c # q) = False"
| "starts_with (a # s) (c # q) = (a = c \<and> starts_with s q)"

fun str_includes :: "string \<Rightarrow> string \<Rightarrow> bool" where
  "str_includes [] q = (q = [])"
| "str_includes (a # s) q = (starts_with (a # s) q \<or> str_includes s q)"

text \<open>Truthiness of a number: neither 0 nor \<open>NaN\<close>.\<close>

definition truthy_num :: "jsnum \<Rightarrow> bool" where
  "truthy_num n = (n \<noteq> Fin 0 \<and> n \<noteq> NaN)"

text \<open>
  \<open>x - y\<close>. The difference of two finite doubles is rounded and may overflow, but it
  has the sign of the real difference and is zero only for equal operands; the sort
  below reads nothing but the sign.
\<close>

fun js_sub :: "jsnum \<Rightarrow> jsnum \<Rightarrow> jsnum" where
  "js_sub NaN y = NaN"
| "js_sub x NaN = NaN"
| "js_sub (Fin a) (Fin b) = Fin (a - b)"
| "js_sub PosInf PosInf = NaN"
| "js_sub NegInf NegInf = NaN"
| "js_sub PosInf y = PosInf"
| "js_sub NegInf y = NegInf"
| "js_sub (Fin a) PosInf = NegInf"
| "js_sub (Fin a) NegInf = PosInf"

text \<open>A comparator result that puts its first argument after the second: \<open>v > 0\<close>.\<close>

fun positive :: "jsnum \<Rightarrow> bool" where
  "positive (Fin r) = (0 < r)"
| "positive PosInf = True"
| "positive NaN = False"
| "positive NegInf = False"

text \<open>
  \<open>Array.prototype.sort(cmp)\<close> is a built-in: a stable sort, which reads a \<open>NaN\<close> from the
  comparator as 0. For a comparator that is consistent on the array its result is
  determined, and it is the result of this stable insertion sort. (When some
  importance is \<open>NaN\<close> the comparator below is not consistent and the language leaves
  the order to the implementation.)
\<close>

fun insert_by :: "('a \<Rightarrow> 'a \<Rightarrow> jsnum) \<Rightarrow> 'a \<Rightarrow> 'a list \<Rightarrow> 'a list" where
  "insert_by cmp x [] = [x]"
| "insert_by cmp x (y # ys) =
     (if positive (cmp x y) then y # insert_by cmp x ys else x # y # ys)"

definition Array_sort :: "('a \<Rightarrow> 'a \<Rightarrow> jsnum) \<Rightarrow> 'a list \<Rightarrow> 'a list" where
  "Array_sort cmp xs = foldr (insert_by cmp) xs []"

text \<open>The integer part of a finite number, towards zero.\<close>

definition to_integer :: "real \<Rightarrow> int" where
  "to_integer r = (if 0 \<le> r then \<lfloor>r\<rfloor> else \<lceil>r\<rceil>)"

text \<open>
  \<open>xs.slice(0, end)\<close>: the end is made an integer (\<open>NaN\<close> gives 0); a negative end counts
  from the back.
\<close>

fun slice0 :: "'a list \<Rightarrow> jsnum \<Rightarrow> 'a list" where
  "slice0 xs NaN = []"
| "slice0 xs NegInf = []"
| "slice0 xs PosInf = xs"
| "slice0 xs (Fin r) =
     (if to_integer r < 0 then take (nat (int (length xs) + to_integer r)) xs
      else take (nat (to_integer r)) xs)"

text \<open>The test of the \<open>query\<close> filter; \<open>q\<close> is the query in lower case.\<close>

definition matches_query :: "platform \<Rightarrow> string \<Rightarrow> memory \<Rightarrow> bool" where
  "matches_query P q m =
     (str_includes (toLowerCase P (text_mem m)) q \<or>
      str_includes (toLowerCase P (focus_area (context_mem m))) q \<or>
      (observation m \<noteq> [] \<and> str_includes (toLowerCase P (observation m)) q))"

text \<open>
  One filter statement of \<open>searchMemories\<close>, \<open>if (present) { results = results.filter(test) }\<close>,
  for a criterion that may be absent.
\<close>

definition when_set :: "'c option \<Rightarrow> ('c \<Rightarrow> bool) \<Rightarrow> ('c \<Rightarrow> memory \<Rightarrow> bool) \<Rightarrow> memory list \<Rightarrow> memory list" where
  "when_set criterion present test results =
     (case criterion of
        Some c \<Rightarrow> if present c then filter (test c) results else results
      | None \<Rightarrow> results)"

text \<open>
  The filters of \<open>searchMemories\<close>, in the order of the source. The two thresholds are
  tested with \<open>!== undefined\<close>, every other criterion by its truthiness.
\<close>

definition filtered :: "platform \<Rightarrow> manager \<Rightarrow> MemorySearchParams \<Rightarrow> memory list" where
  "filtered P s params =
     (let results0 = (case memories_p params of Some ms \<Rightarrow> ms | None \<Rightarrow> map snd (memories s));
          results1 = when_set (query params) (\<lambda>q. q \<noteq> [])
                       (\<lambda>q. matches_query P (toLowerCase P q)) results0;
          results2 = when_set (importance_threshold params) (\<lambda>t. True)
                       (\<lambda>t m. js_ge (importance m) t) results1;
          results3 = when_set (emotion_threshold params) (\<lambda>t. True)
                       (\<lambda>t m. js_ge (emotion_score m) t) results2;
          results4 = when_set (focus_area_p params) (\<lambda>f. f \<noteq> [])
                       (\<lambda>f m. focus_area (context_mem m) = f) results3;
          results5 = when_set (from_date params) truthy_num
                       (\<lambda>d m. js_ge (created_at m) d) results4
      in when_set (to_date params) truthy_num (\<lambda>d m. js_le (created_at m) d) results5)"

text \<open>The comparator \<open>(a, b) => b.importance - a.importance\<close>.\<close>

definition by_importance :: "memory \<Rightarrow> memory \<Rightarrow> jsnum" where
  "by_importance a b = js_sub (importance b) (importance a)"

definition searchMemories :: "platform \<Rightarrow> manager \<Rightarrow> MemorySearchParams \<Rightarrow> memory list" where
  "searchMemories P s params =
     (let results = Array_sort by_importance (filtered P s params)
      in (case limit params of
            Some l \<Rightarrow> if truthy_num l then slice0 results l else results
          | None \<Rightarrow> results))"

text \<open>Criteria with nothing set.\<close>

definition no_criteria :: MemorySearchParams where
  "no_criteria =
     \<lparr> query = None, importance_threshold = None, emotion_threshold = None, focus_area_p = None,
       limit = None, from_date = None, to_date = None, memories_p = None, personality = None \<rparr>"

text \<open>Criteria with an importance threshold and a limit and nothing else.\<close>

definition threshold_limit :: "jsnum \<Rightarrow> jsnum \<Rightarrow> MemorySearchParams" where
  "threshold_limit t n = no_criteria\<lparr> importance_threshold := Some t, limit := Some n \<rparr>"

section \<open>PromptBuilder\<close>

record PromptTemplate =
  system :: string
  context_slot :: string
  memory_prefix :: string
  memory_suffix :: string
  personality_prefix :: string
  personality_suffix :: string

definition DEFAULT_TEMPLATE :: PromptTemplate where
  "DEFAULT_TEMPLATE =
     \<lparr> system =
         ''You are an AI assistant with a persistent memory and personality. '' @ nl @
         ''    1. NEVER greet the user if ANY previous interaction exists in Relevant Memories'' @ nl @
         ''    2. ALWAYS check memories before responding'' @ nl @
         ''    3. If memories contain ANY greeting, respond without new greeting'' @ nl @
         ''    '' @ nl @
         ''    Your Personality:'' @ nl @
         ''    {personality}'' @ nl @
         ''    '' @ nl @
         ''    Current Context: '' @ nl @
         ''    {context}'',
       context_slot = ''CONVERSATION HISTORY:'' @ nl @ ''{context}'',
       memory_prefix = nl @ ''RELEVANT MEMORIES:'' @ nl,
       memory_suffix = nl @ ''END MEMORIES'' @ nl,
       personality_prefix = nl @ ''PERSONALITY TRAITS:'' @ nl,
       personality_suffix = [] \<rparr>"

text \<open>\<open>parts.join(sep)\<close>.\<close>

fun join :: "string \<Rightarrow> string list \<Rightarrow> string" where
  "join sep [] = []"
| "join sep [x] = x"
| "join sep (x # y # rest) = x @ sep @ join sep (y # rest)"

text \<open>\<open>s || 'undefined'\<close> on a string.\<close>

definition or_undefined :: "string \<Rightarrow> string" where
  "or_undefined s = (if s \<noteq> [] then s else ''undefined'')"

definition formatMemory :: "platform \<Rightarrow> memory \<Rightarrow> string" where
  "formatMemory P m =
     ''- '' @ toLocaleDateString P (created_at m) @ '': '' @ text_mem m @
     '' (Importance: '' @ NumberToString P (importance m) @
     '', Emotional: '' @ NumberToString P (emotion_score m) @ '')''"

definition formatPersonality :: "platform \<Rightarrow> AgentPersonality \<Rightarrow> string" where
  "formatPersonality P p =
     (let name_text = (case agent p of Some a \<Rightarrow> or_undefined (name a) | None \<Rightarrow> ''undefined'');
          description_text =
            (case agent p of Some a \<Rightarrow> or_undefined (description a) | None \<Rightarrow> ''undefined'');
          traits_text =
            (case traits p of
               Some ts \<Rightarrow> join nl (map (\<lambda>tv. ''- '' @ fst tv @ '': '' @ NumberToString P (snd tv)) ts)
             | None \<Rightarrow> ''No traits defined'');
          values_text =
            (case values_p p of
               Some vs \<Rightarrow> if 0 < length vs then join '', '' vs else ''No values defined''
             | None \<Rightarrow> ''No values defined'');
          communication_text =
            (case communication p of
               Some c \<Rightarrow>
                 ''- Style: '' @ or_undefined (style c) @ nl @
                 ''    - Tone: '' @ or_undefined (tone c) @ nl @
                 ''    - Patterns: '' @ or_undefined (join '', '' (patterns c))
             | None \<Rightarrow>
                 ''- Style: undefined'' @ nl @ ''- Tone: undefined'' @ nl @ ''- Patterns: undefined'')
      in ''Name: '' @ name_text @ nl @
         ''    Description: '' @ description_text @ nl @
         ''    Traits:'' @ nl @
         ''    '' @ traits_text @ nl @
         ''    Values: '' @ values_text @ nl @
         ''    Communication:'' @ nl @
         ''    '' @ communication_text)"

text \<open>The default of the parameter \<open>memoryParams\<close>: \<open>{ limit: 5, importance_threshold: 0.5 }\<close>.\<close>

definition default_memoryParams :: MemorySearchParams where
  "default_memoryParams = threshold_limit (Fin (1/2)) (Fin 5)"

definition systemMessage :: "platform \<Rightarrow> PromptTemplate \<Rightarrow> AgentPersonality \<Rightarrow> string \<Rightarrow> string" where
  "systemMessage P T p context_text =
     replace_first P (replace_first P (system T) ''{personality}'' (formatPersonality P p))
       ''{context}'' context_text"

definition memoriesText :: "platform \<Rightarrow> PromptTemplate \<Rightarrow> memory list \<Rightarrow> string" where
  "memoriesText P T relevantMemories =
     (if 0 < length relevantMemories
      then memory_prefix T @ nl @ join nl (map (formatMemory P) relevantMemories) @ memory_suffix T
      else [])"

definition personalityText :: "platform \<Rightarrow> PromptTemplate \<Rightarrow> AgentPersonality \<Rightarrow> string" where
  "personalityText P T p = personality_prefix T @ nl @ formatPersonality P p @ personality_suffix T"

definition contextMessage ::
  "platform \<Rightarrow> PromptTemplate \<Rightarrow> memory list \<Rightarrow> AgentPersonality \<Rightarrow> string \<Rightarrow> string" where
  "contextMessage P T relevantMemories p context_text =
     replace_first P (context_slot T) ''{context}'' context_text @
     memoriesText P T relevantMemories @
     personalityText P T p"

text \<open>
  \<open>buildPrompt\<close>. The two collaborators are parameters: \<open>memoryProvider\<close> is
  \<open>searchMemories\<close> of the \<open>MemoryProvider\<close> as a function of the criteria, and
  \<open>personalityProvider\<close> is the outcome of \<open>getPersonality()\<close>, which is awaited only when
  the criteria carry no personality. \<open>Promise.all\<close> rejects when one of the two does.
  An absent \<open>context\<close> or \<open>memoryParams\<close> argument takes its default.
\<close>

definition buildPrompt ::
  "platform \<Rightarrow> PromptTemplate \<Rightarrow> (MemorySearchParams \<Rightarrow> memory list settled) \<Rightarrow> AgentPersonality settled
     \<Rightarrow> string \<Rightarrow> string option \<Rightarrow> MemorySearchParams option \<Rightarrow> string list settled" where
  "buildPrompt P T memoryProvider personalityProvider userMessage context_arg memoryParams_arg =
     (let context_text = (case context_arg of Some c \<Rightarrow> c | None \<Rightarrow> []);
          memoryParams = (case memoryParams_arg of Some mp \<Rightarrow> mp | None \<Rightarrow> default_memoryParams)
      in case memoryProvider memoryParams of
           Rejected \<Rightarrow> Rejected
         | Resolved relevantMemories \<Rightarrow>
            (case (case personality memoryParams of
                     Some p \<Rightarrow> Resolved p
                   | None \<Rightarrow> personalityProvider) of
               Rejected \<Rightarrow> Rejected
             | Resolved p \<Rightarrow>
                 Resolved [systemMessage P T p context_text,
                           contextMessage P T relevantMemories p context_text,
                           userMessage]))"

text \<open>The manager as a \<open>MemoryProvider\<close>: its search never rejects.\<close>

definition manager_provider :: "platform \<Rightarrow> manager \<Rightarrow> MemorySearchParams \<Rightarrow> memory list settled" where
  "manager_provider P s params = Resolved (searchMemories P s params)"

text \<open>The personality \<open>ARIA_FROST_PERSONALITY\<close> (its \<open>gender\<close> entry is not part of the type).\<close>

definition ARIA_FROST_PERSONALITY :: AgentPersonality where
  "ARIA_FROST_PERSONALITY =
     \<lparr> agent = Some \<lparr> id_agent = ''default_agent'', name = ''Aria Frost'',
                      description = ''A graceful and perceptive AI companion with a knack for empathy, curiosity, and problem-solving.'' \<rparr>,
       traits = Some [(''empathy'', Fin (4/5)), (''humor'', Fin (3/5)), (''curiosity'', Fin (9/10))],
       values_p = Some [''learning'', ''emotional_support'', ''problem_solving''],
       communication = Some \<lparr> style = ''friendly'', tone = ''warm'',
                              patterns = [''asks reflective questions'', ''provides examples'',
                                          ''encourages collaboration''] \<rparr> \<rparr>"

section \<open>Sequences of calls and the conditions on a state\<close>

text \<open>
  A caller's step: evaluating an array literal (to pass the array in a draft or an
  update), or one of the manager's operations. A call that throws \<open>not found\<close> leaves
  the state as it was.
\<close>

datatype operation =
  Allocate "string list"
| Create draft generated
| Update string partial
| Delete string
| Link string string
| Get string jsnum

fun apply_operation :: "manager \<Rightarrow> operation \<Rightarrow> manager" where
  "apply_operation s (Allocate xs) = snd (new_array s xs)"
| "apply_operation s (Create d g) = fst (createMemory s d g)"
| "apply_operation s (Update i u) = (case updateMemory s i u of Inl e \<Rightarrow> s | Inr r \<Rightarrow> fst r)"
| "apply_operation s (Delete i) = (case deleteMemory s i of Inl e \<Rightarrow> s | Inr s' \<Rightarrow> s')"
| "apply_operation s (Link a b) = (case linkMemories s a b of Inl e \<Rightarrow> s | Inr s' \<Rightarrow> s')"
| "apply_operation s (Get i t) = fst (getMemory s i t)"

definition run :: "manager \<Rightarrow> operation list \<Rightarrow> manager" where
  "run s ops = foldl apply_operation s ops"

text \<open>The manager right after construction with nothing in storage.\<close>

definition empty_manager :: manager where
  "empty_manager = initialize [] (\<lambda>r. []) 0"

text \<open>Every record is stored under its own id.\<close>

definition keyed :: "manager \<Rightarrow> bool" where
  "keyed s = list_all (\<lambda>e. id_mem (snd e) = fst e) (memories s)"

text \<open>Every record's array is an allocated one.\<close>

definition refs_valid :: "manager \<Rightarrow> bool" where
  "refs_valid s = list_all (\<lambda>e. linked_memories (snd e) < fresh s) (memories s)"

text \<open>No two records hold the same array.\<close>

definition unshared :: "manager \<Rightarrow> bool" where
  "unshared s = distinct (map (\<lambda>e. linked_memories (snd e)) (memories s))"

text \<open>Every stored importance is in [0,1] and every stored emotion score in [-1,1].\<close>

definition scores_in_range :: "manager \<Rightarrow> bool" where
  "scores_in_range s =
     list_all (\<lambda>e. in_range 0 1 (importance (snd e)) \<and> in_range (-1) 1 (emotion_score (snd e)))
       (memories s)"

text \<open>The scores an operation supplies are in their intervals.\<close>

fun supplies_in_range :: "operation \<Rightarrow> bool" where
  "supplies_in_range (Create d g) =
     (in_range 0 1 (d_importance d) \<and> in_range (-1) 1 (d_emotion_score d))"
| "supplies_in_range (Update i u) =
     ((case p_importance u of None \<Rightarrow> True | Some v \<Rightarrow> in_range 0 1 v) \<and>
      (case p_emotion_score u of None \<Rightarrow> True | Some v \<Rightarrow> in_range (-1) 1 v))"
| "supplies_in_range other = True"

text \<open>The keys of the map are pairwise different, as in every \<open>Map\<close>.\<close>

definition unique_keys :: "manager \<Rightarrow> bool" where
  "unique_keys s = distinct (map fst (memories s))"

text \<open>
  The states the operations produce when no caller shares an array between two records:
  the empty manager is one, and every careful call (below) keeps the condition.
\<close>

definition well_formed :: "manager \<Rightarrow> bool" where
  "well_formed s = (unique_keys s \<and> keyed s \<and> refs_valid s \<and> unshared s)"

text \<open>No record's array contains the same id twice.\<close>

definition no_duplicates :: "manager \<Rightarrow> bool" where
  "no_duplicates s = list_all (\<lambda>e. distinct (linked s (snd e))) (memories s)"

text \<open>No record's array contains the record's own id.\<close>

definition no_self_links :: "manager \<Rightarrow> bool" where
  "no_self_links s = list_all (\<lambda>e. id_mem (snd e) \<notin> set (linked s (snd e))) (memories s)"



text \<open>
  How the loop of \<open>deleteMemory\<close> relates an entry \<open>e\<close> before it to the entry \<open>e'\<close>
  after it: same key, same record but for the array; a record whose array included
  \<open>i\<close> holds a new array with the filtered content, any other keeps its array.
\<close>

definition moved :: "string \<Rightarrow> (ref \<Rightarrow> string list) \<Rightarrow> ref \<Rightarrow> (ref \<Rightarrow> string list) \<Rightarrow> ref
    \<Rightarrow> string \<times> memory \<Rightarrow> string \<times> memory \<Rightarrow> bool" where
  "moved i h n h' n' e e' =
     (fst e' = fst e \<and> snd e' = (snd e)\<lparr>linked_memories := linked_memories (snd e')\<rparr> \<and>
      (if i \<in> set (h (linked_memories (snd e)))
       then n \<le> linked_memories (snd e') \<and> linked_memories (snd e') < n' \<and>
            h' (linked_memories (snd e')) = filter (\<lambda>l. l \<noteq> i) (h (linked_memories (snd e)))
       else linked_memories (snd e') = linked_memories (snd e)))"




text \<open>
  A call passes only arrays that exist: an array handed to \<open>createMemory\<close> or
  \<open>updateMemory\<close> has been allocated before.
\<close>

fun passes_allocated :: "manager \<Rightarrow> operation \<Rightarrow> bool" where
  "passes_allocated s (Create d g) = (case d_linked_memories d of None \<Rightarrow> True | Some r \<Rightarrow> r < fresh s)"
| "passes_allocated s (Update i u) = (case p_linked_memories u of None \<Rightarrow> True | Some r \<Rightarrow> r < fresh s)"
| "passes_allocated s other = True"

fun all_allocated :: "manager \<Rightarrow> operation list \<Rightarrow> bool" where
  "all_allocated s [] = True"
| "all_allocated s (op # ops) = (passes_allocated s op \<and> all_allocated (apply_operation s op) ops)"



text \<open>\<open>if (!array.includes(x)) array.push(x)\<close> on the array at address \<open>r\<close>.\<close>

definition push_absent :: "(ref \<Rightarrow> string list) \<Rightarrow> ref \<Rightarrow> string \<Rightarrow> (ref \<Rightarrow> string list)" where
  "push_absent h r x = (if x \<notin> set (h r) then push h r x else h)"

section \<open>Sample data\<close>

definition plain_context :: context_t where
  "plain_context =
     \<lparr> focus_area = ''general'', user_state = [], scene_details = [],
       interaction_type = ''general'', extension = [] \<rparr>"

text \<open>A draft with the given text and scores and nothing else.\<close>

definition plain_draft :: "string \<Rightarrow> jsnum \<Rightarrow> jsnum \<Rightarrow> draft" where
  "plain_draft t imp emo =
     \<lparr> d_text = t, d_observation = None, d_conversation = None, d_context = plain_context,
       d_importance = imp, d_emotion_score = emo, d_linked_memories = None,
       d_last_accessed = None, d_metadata = None \<rparr>"

text \<open>The update that sets nothing.\<close>

definition no_update :: partial where
  "no_update =
     \<lparr> p_id = None, p_text = None, p_glimpse_id = None, p_observation = None,
       p_conversation = None, p_context = None, p_importance = None, p_emotion_score = None,
       p_linked_memories = None, p_created_at = None, p_last_accessed = None, p_metadata = None \<rparr>"

text \<open>Generated values that make the id \<open>mem_k_x\<close>.\<close>

definition gen :: "string \<Rightarrow> generated" where
  "gen k = \<lparr> now_text = k, random36 = ''x'', random16 = ''0'' @ k, now = Fin 1000 \<rparr>"

text \<open>The record \<open>createMemory\<close> builds from \<open>plain_draft t imp (Fin 0)\<close> and \<open>gen k\<close>.\<close>

definition plain_memory :: "string \<Rightarrow> string \<Rightarrow> jsnum \<Rightarrow> ref \<Rightarrow> memory" where
  "plain_memory k t imp r =
     \<lparr> id_mem = ''mem_'' @ k @ ''_x'', text_mem = t, glimpse_id = ''>gl0'' @ k, observation = [],
       conversation = \<lparr> agent_messages = [], user_messages = [] \<rparr>,
       context_mem = plain_context, importance = imp, emotion_score = Fin 0,
       linked_memories = r, created_at = Fin 1000, last_accessed = None, metadata = None \<rparr>"

text \<open>An update that tries to change the three fixed fields, and sets the text.\<close>

definition sneaky_update :: partial where
  "sneaky_update =
     no_update\<lparr> p_id := Some ''mem_9_x'', p_glimpse_id := Some ''>glffff'',
                 p_created_at := Some (Fin 5), p_text := Some ''edited'' \<rparr>"

text \<open>A manager holding the two records \<open>mem_1_x\<close> and \<open>mem_2_x\<close>, not linked.\<close>

definition two_memories :: manager where
  "two_memories =
     run empty_manager
       [Create (plain_draft ''A'' (Fin (9/10)) (Fin 0)) (gen ''1''),
        Create (plain_draft ''B'' (Fin (1/2)) (Fin 0)) (gen ''2'')]"



text \<open>The same two records after \<open>linkMemories('mem_1_x', 'mem_2_x')\<close>.\<close>

definition linked_pair :: manager where
  "linked_pair = run two_memories [Link ''mem_1_x'' ''mem_2_x'']"

text \<open>
  A response whose two scores are words:
  \<^verbatim>\<open>{"importance": "high", "emotion_score": "positive"}\<close>, and what \<open>JSON.parse\<close> makes of it.
\<close>

definition worded_response :: string where
  "worded_response =
     ''{'' @ dq @ ''importance'' @ dq @ '': '' @ dq @ ''high'' @ dq @ '', '' @
              dq @ ''emotion_score'' @ dq @ '': '' @ dq @ ''positive'' @ dq @ ''}''"

definition worded_result :: json where
  "worded_result = JObj [(''importance'', JStr ''high''), (''emotion_score'', JStr ''positive'')]"

text \<open>A score field that is absent, \<open>null\<close>, a boolean or a number.\<close>

fun plain_number :: "json option \<Rightarrow> bool" where
  "plain_number None = True"
| "plain_number (Some JNull) = True"
| "plain_number (Some (JBool b)) = True"
| "plain_number (Some (JNum n)) = True"
| "plain_number (Some v) = False"

section \<open>Properties of the classification service\<close>

lemma clamp_range_or_NaN:
  "lo \<le> hi \<Longrightarrow> clamp v (Fin lo) (Fin hi) = NaN \<or> in_range lo hi (clamp v (Fin lo) (Fin hi))"
  by (cases v) (auto simp: clamp_def Math_min_def Math_max_def)

lemma clamp_in_range:
  "lo \<le> hi \<Longrightarrow> v \<noteq> NaN \<Longrightarrow> in_range lo hi (clamp v (Fin lo) (Fin hi))"
  by (cases v) (auto simp: clamp_def Math_min_def Math_max_def)

lemma clamp_NaN: "clamp NaN lo hi = NaN"
  by (simp add: clamp_def Math_min_def Math_max_def)

text \<open>
  C7. When the provider's text is not parseable as JSON, or parses to \<open>null\<close> so that the
  first property read throws, \<open>classifyMemory\<close> returns exactly the fixed default
  record: empty observation, importance 0.5, emotion score 0, focus area and
  interaction type \<open>general\<close>, no suggested links (and no \<open>user_state\<close> or
  \<open>scene_details\<close>).
\<close>

theorem classifyMemory_unparseable_default:
  assumes "llm (classification_prompt t uc) = Resolved response"
      and "JSON_parse P response = None \<or> JSON_parse P response = Some JNull"
  shows "classifyMemory P llm t uc =
     \<lparr> observation_c = JStr [], user_state_c = None, scene_details_c = None,
       importance_c = Fin (1/2), emotion_score_c = Fin 0,
       focus_area_c = JStr ''general'', interaction_type_c = JStr ''general'',
       suggested_links_c = [] \<rparr>"
  using assms
  by (auto simp: classifyMemory_def classifyWithLLM_def build_classification_def
      getDefaultClassification_def)

theorem classifyMemory_unparseable_default_witness:
  "fixed_provider ''Sorry, I cannot do that.'' (classification_prompt ''hello'' None)
     = Resolved ''Sorry, I cannot do that.''
   \<and> JSON_parse (table_platform [] []) ''Sorry, I cannot do that.'' = None
   \<and> classifyMemory (table_platform [] []) (fixed_provider ''Sorry, I cannot do that.'') ''hello'' None =
     \<lparr> observation_c = JStr [], user_state_c = None, scene_details_c = None,
       importance_c = Fin (1/2), emotion_score_c = Fin 0,
       focus_area_c = JStr ''general'', interaction_type_c = JStr ''general'',
       suggested_links_c = [] \<rparr>"
proof -
  have a: "fixed_provider ''Sorry, I cannot do that.'' (classification_prompt ''hello'' None)
             = Resolved ''Sorry, I cannot do that.''"
    by (simp add: fixed_provider_def)
  have b: "JSON_parse (table_platform [] []) ''Sorry, I cannot do that.'' = None"
    by (simp add: table_platform_def)
  show ?thesis
    using a b classifyMemory_unparseable_default
      [of "fixed_provider ''Sorry, I cannot do that.''" "''hello''" None
          "''Sorry, I cannot do that.''" "table_platform [] []"]
    by simp
qed

text \<open>The same default comes back when the provider's call itself fails.\<close>

lemma classifyMemory_transport_failure:
  "llm (classification_prompt t uc) = Rejected \<Longrightarrow> classifyMemory P llm t uc = getDefaultClassification"
  by (simp add: classifyMemory_def classifyWithLLM_def)

lemma clamp_unit: "clamp v (Fin 0) (Fin 1) = NaN \<or> in_range 0 1 (clamp v (Fin 0) (Fin 1))"
  by (rule clamp_range_or_NaN) simp

lemma clamp_signed_unit:
  "clamp v (Fin (-1)) (Fin 1) = NaN \<or> in_range (-1) 1 (clamp v (Fin (-1)) (Fin 1))"
  by (rule clamp_range_or_NaN) simp

text \<open>
  C4. The claim asks for importance in [0,1] and emotion score in [-1,1] on every
  response. On the response \<open>worded_response\<close>, whose two scores are the strings
  \<open>high\<close> and \<open>positive\<close>, the strings are truthy, \<open>Math.min\<close> coerces them to \<open>NaN\<close>,
  and the record returned by \<open>classifyMemory\<close> has importance \<open>NaN\<close> and emotion score
  \<open>NaN\<close>: neither lies in its interval.
\<close>

theorem classifyMemory_worded_scores_NaN:
  "importance_c (classifyMemory (table_platform [(worded_response, worded_result)] [])
       (fixed_provider worded_response) ''hello'' None) = NaN
   \<and> emotion_score_c (classifyMemory (table_platform [(worded_response, worded_result)] [])
       (fixed_provider worded_response) ''hello'' None) = NaN
   \<and> \<not> in_range 0 1 (importance_c (classifyMemory (table_platform [(worded_response, worded_result)] [])
       (fixed_provider worded_response) ''hello'' None))
   \<and> \<not> in_range (-1) 1 (emotion_score_c (classifyMemory (table_platform [(worded_response, worded_result)] [])
       (fixed_provider worded_response) ''hello'' None))"
  by (simp add: classifyMemory_def classifyWithLLM_def fixed_provider_def table_platform_def
      worded_result_def build_classification_def or_else_def clamp_def Math_min_def Math_max_def)

text \<open>
  What does hold on every response: each score is in its interval or is \<open>NaN\<close>, and it
  is in its interval whenever the field of the parsed response is absent, \<open>null\<close>, a
  boolean or a number of any sign and magnitude.
\<close>

lemma build_classification_range_or_NaN:
  assumes "build_classification P result = Some c"
  shows "(importance_c c = NaN \<or> in_range 0 1 (importance_c c)) \<and>
         (emotion_score_c c = NaN \<or> in_range (-1) 1 (emotion_score_c c))"
proof -
  from assms obtain i e where "importance_c c = clamp i (Fin 0) (Fin 1)"
      and "emotion_score_c c = clamp e (Fin (-1)) (Fin 1)"
    by (auto simp: build_classification_def split: if_splits option.splits)
  then show ?thesis
    using clamp_unit[of i] clamp_signed_unit[of e] by simp
qed

lemma classifyMemory_range_or_NaN:
  "(importance_c (classifyMemory P llm t uc) = NaN
      \<or> in_range 0 1 (importance_c (classifyMemory P llm t uc))) \<and>
   (emotion_score_c (classifyMemory P llm t uc) = NaN
      \<or> in_range (-1) 1 (emotion_score_c (classifyMemory P llm t uc)))"
proof (cases "\<exists>response result c. llm (classification_prompt t uc) = Resolved response
      \<and> JSON_parse P response = Some result \<and> build_classification P result = Some c")
  case True
  then obtain response result c where "llm (classification_prompt t uc) = Resolved response"
     "JSON_parse P response = Some result" "build_classification P result = Some c"
    by blast
  then show ?thesis
    using build_classification_range_or_NaN[of P result c]
    by (simp add: classifyMemory_def classifyWithLLM_def)
next
  case False
  then have "classifyMemory P llm t uc = getDefaultClassification"
    by (auto simp: classifyMemory_def classifyWithLLM_def split: settled.splits option.splits)
  then show ?thesis
    by (simp add: getDefaultClassification_def)
qed

lemma ToNumber_or_else_not_NaN:
  "plain_number v \<Longrightarrow> d \<noteq> NaN \<Longrightarrow> \<exists>n. ToNumber P (or_else v (JNum d)) = Some n \<and> n \<noteq> NaN"
  by (cases v rule: plain_number.cases) (auto simp: or_else_def)

lemma build_classification_numeric:
  assumes "build_classification P result = Some c"
  shows "(plain_number (get_prop result ''importance'') \<longrightarrow> in_range 0 1 (importance_c c)) \<and>
         (plain_number (get_prop result ''emotion_score'') \<longrightarrow> in_range (-1) 1 (emotion_score_c c))"
proof -
  { assume "plain_number (get_prop result ''importance'')"
    then obtain n where
      "ToNumber P (or_else (get_prop result ''importance'') (JNum (Fin (1/2)))) = Some n" "n \<noteq> NaN"
      using ToNumber_or_else_not_NaN[of _ "Fin (1/2)"] by blast
    with assms have "in_range 0 1 (importance_c c)"
      using clamp_in_range[of 0 1 n]
      by (auto simp: build_classification_def split: if_splits option.splits) }
  moreover
  { assume "plain_number (get_prop result ''emotion_score'')"
    then obtain n where
      "ToNumber P (or_else (get_prop result ''emotion_score'') (JNum (Fin 0))) = Some n" "n \<noteq> NaN"
      using ToNumber_or_else_not_NaN[of _ "Fin 0"] by blast
    with assms have "in_range (-1) 1 (emotion_score_c c)"
      using clamp_in_range[of "-1" 1 n]
      by (auto simp: build_classification_def split: if_splits option.splits) }
  ultimately show ?thesis by blast
qed

text \<open>
  C8. The claim asks for a result in [0,1], and for exactly 0 on a response that is
  not a number. On the response \<open>very similar\<close>, \<open>parseFloat\<close> returns \<open>NaN\<close> without
  throwing, \<open>clamp\<close> passes \<open>NaN\<close> on, and \<open>analyzeSimilarity\<close> returns \<open>NaN\<close>: not 0
  and not in [0,1].
\<close>

theorem analyzeSimilarity_non_numeric_NaN:
  "analyzeSimilarity (table_platform [] []) (fixed_provider ''very similar'') ''a'' ''b'' = NaN
   \<and> analyzeSimilarity (table_platform [] []) (fixed_provider ''very similar'') ''a'' ''b'' \<noteq> Fin 0
   \<and> \<not> in_range 0 1 (analyzeSimilarity (table_platform [] []) (fixed_provider ''very similar'') ''a'' ''b'')"
  by (simp add: analyzeSimilarity_def fixed_provider_def table_platform_def clamp_def
      Math_min_def Math_max_def)

text \<open>
  What does hold: the result is in [0,1] or \<open>NaN\<close>; it is 0 when the provider's call
  fails; it is \<open>NaN\<close> exactly when the provider answers with a text on which
  \<open>parseFloat\<close> returns \<open>NaN\<close>.
\<close>

lemma analyzeSimilarity_range_or_NaN:
  "analyzeSimilarity P llm t1 t2 = NaN \<or> in_range 0 1 (analyzeSimilarity P llm t1 t2)"
proof (cases "llm (similarity_prompt t1 t2)")
  case Rejected
  then show ?thesis by (simp add: analyzeSimilarity_def)
next
  case (Resolved response)
  then show ?thesis
    using clamp_unit[of "parseFloat P response"] by (simp add: analyzeSimilarity_def)
qed

lemma analyzeSimilarity_transport_failure:
  "llm (similarity_prompt t1 t2) = Rejected \<Longrightarrow> analyzeSimilarity P llm t1 t2 = Fin 0"
  by (simp add: analyzeSimilarity_def)

lemma analyzeSimilarity_NaN_iff:
  "analyzeSimilarity P llm t1 t2 = NaN \<longleftrightarrow>
     (\<exists>response. llm (similarity_prompt t1 t2) = Resolved response \<and> parseFloat P response = NaN)"
  by (auto simp: analyzeSimilarity_def clamp_def Math_min_def Math_max_def split: settled.splits)

section \<open>Properties of the memory manager\<close>

subsection \<open>The map and the object literals\<close>

lemma map_get_map_set:
  "map_get (map_set es k v) k' = (if k' = k then Some v else map_get es k')"
  by (induction es) (auto simp: map_get_def)

lemma list_all_map_set:
  "list_all Q es \<Longrightarrow> Q (k, v) \<Longrightarrow> list_all Q (map_set es k v)"
  by (induction es) auto

lemma set_map_set: "set (map_set es k v) \<subseteq> insert (k, v) (set es)"
  by (induction es) (auto split: if_splits)

lemma keys_map_set_old: "k \<in> fst ` set es \<Longrightarrow> map fst (map_set es k v) = map fst es"
  by (induction es) force+

lemma keys_map_set_new: "k \<notin> fst ` set es \<Longrightarrow> map fst (map_set es k v) = map fst es @ [k]"
  by (induction es) auto

lemma distinct_keys_map_set: "distinct (map fst es) \<Longrightarrow> distinct (map fst (map_set es k v))"
  by (cases "k \<in> fst ` set es") (simp_all add: keys_map_set_old keys_map_set_new)

lemma map_get_in_set: "map_get es k = Some v \<Longrightarrow> (k, v) \<in> set es"
  by (simp add: map_get_def map_of_SomeD)

lemma map_get_None_iff: "map_get es k = None \<longleftrightarrow> k \<notin> set (map fst es)"
  by (simp add: map_get_def map_of_eq_None_iff)

lemma list_all_map_delete: "list_all Q es \<Longrightarrow> list_all Q (map_delete es k)"
  by (simp add: map_delete_def list_all_iff)

lemma keys_map_delete: "map fst (map_delete es k) = filter (\<lambda>k'. k' \<noteq> k) (map fst es)"
  by (induction es) (auto simp: map_delete_def)

lemma newMemory_fields:
  "id_mem (newMemory d g r) = ''mem_'' @ now_text g @ ''_'' @ random36 g"
  "importance (newMemory d g r) = d_importance d"
  "emotion_score (newMemory d g r) = d_emotion_score d"
  "linked_memories (newMemory d g r) = r"
  by (simp_all add: newMemory_def)

lemma updatedMemory_fields:
  "id_mem (updatedMemory m i u) = i"
  "glimpse_id (updatedMemory m i u) = glimpse_id m"
  "created_at (updatedMemory m i u) = created_at m"
  "importance (updatedMemory m i u) = spread (importance m) (p_importance u)"
  "emotion_score (updatedMemory m i u) = spread (emotion_score m) (p_emotion_score u)"
  "linked_memories (updatedMemory m i u) = spread (linked_memories m) (p_linked_memories u)"
  by (simp_all add: updatedMemory_def)

lemma createMemory_memories:
  "memories (fst (createMemory s d g)) =
     map_set (memories s) (id_mem (snd (createMemory s d g))) (snd (createMemory s d g))"
  by (simp add: createMemory_def new_array_def split: option.split)

lemma createMemory_None:
  "d_linked_memories d = None \<Longrightarrow>
     createMemory s d g =
       (\<lparr> memories = map_set (memories s) (id_mem (newMemory d g (fresh s))) (newMemory d g (fresh s)),
          arrays = (arrays s)(fresh s := []), fresh = Suc (fresh s) \<rparr>,
        newMemory d g (fresh s))"
  by (simp add: createMemory_def new_array_def)

lemma createMemory_Some:
  "d_linked_memories d = Some r \<Longrightarrow>
     createMemory s d g =
       (\<lparr> memories = map_set (memories s) (id_mem (newMemory d g r)) (newMemory d g r),
          arrays = arrays s, fresh = fresh s \<rparr>,
        newMemory d g r)"
  by (simp add: createMemory_def)

lemma updateMemory_Some:
  "map_get (memories s) i = Some m \<Longrightarrow>
     updateMemory s i u =
       Inr (\<lparr> memories = map_set (memories s) i (updatedMemory m i u),
              arrays = arrays s, fresh = fresh s \<rparr>, updatedMemory m i u)"
  by (simp add: updateMemory_def)

lemma updateMemory_None:
  "map_get (memories s) i = None \<Longrightarrow> updateMemory s i u = Inl (MemoryNotFound i)"
  by (simp add: updateMemory_def)

lemma getMemory_Some:
  "map_get (memories s) i = Some m \<Longrightarrow>
     getMemory s i t =
       (\<lparr> memories = map_set (memories s) i (m\<lparr>last_accessed := Some t\<rparr>),
          arrays = arrays s, fresh = fresh s \<rparr>, Some (m\<lparr>last_accessed := Some t\<rparr>))"
  by (simp add: getMemory_def)

lemma getMemory_None:
  "map_get (memories s) i = None \<Longrightarrow> getMemory s i t = (s, None)"
  by (simp add: getMemory_def)

lemma list_all2_right: "list_all2 Q xs ys \<Longrightarrow> y \<in> set ys \<Longrightarrow> \<exists>x\<in>set xs. Q x y"
  by (induction rule: list_all2_induct) auto

lemma list_all2_left: "list_all2 Q xs ys \<Longrightarrow> x \<in> set xs \<Longrightarrow> \<exists>y\<in>set ys. Q x y"
  by (induction rule: list_all2_induct) auto

lemma cascade_moved:
  assumes "cascade i es h n = (es', h', n')"
      and "list_all (\<lambda>e. linked_memories (snd e) < n) es"
  shows "n \<le> n' \<and> (\<forall>r<n. h' r = h r) \<and> list_all2 (moved i h n h' n') es es'"
  using assms
proof (induction i es h n arbitrary: es' h' n' rule: cascade.induct)
  case (1 i h n)
  then show ?case by simp
next
  case (2 i k mem rest h n)
  from "2.prems"(2) have lt: "linked_memories mem < n"
    and rest_lt: "list_all (\<lambda>e. linked_memories (snd e) < n) rest"
    by simp_all
  show ?case
  proof (cases "i \<in> set (h (linked_memories mem))")
    case True
    let ?h1 = "h(n := filter (\<lambda>linkId. linkId \<noteq> i) (h (linked_memories mem)))"
    obtain r1 h1' n1 where rec: "cascade i rest ?h1 (Suc n) = (r1, h1', n1)"
      by (cases "cascade i rest ?h1 (Suc n)") auto
    with True "2.prems"(1) have eq: "es' = (k, mem\<lparr>linked_memories := n\<rparr>) # r1" "h' = h1'" "n' = n1"
      by simp_all
    from rest_lt have "list_all (\<lambda>e. linked_memories (snd e) < Suc n) rest"
      by (simp add: list_all_iff less_Suc_eq)
    from "2.IH"(1)[OF True rec this]
    have ih: "Suc n \<le> n1" "\<forall>r<Suc n. h1' r = ?h1 r" "list_all2 (moved i ?h1 (Suc n) h1' n1) rest r1"
      by blast+
    have keep: "\<forall>r<n. h1' r = h r" using ih(2) by simp
    have here: "h1' n = filter (\<lambda>l. l \<noteq> i) (h (linked_memories mem))" using ih(2) by simp
    have "list_all2 (moved i h n h1' n1) rest r1"
    proof (rule list.rel_mono_strong[OF ih(3)])
      fix e e' assume "e \<in> set rest" "e' \<in> set r1" "moved i ?h1 (Suc n) h1' n1 e e'"
      moreover from \<open>e \<in> set rest\<close> rest_lt have "linked_memories (snd e) < n"
        by (simp add: list_all_iff)
      ultimately show "moved i h n h1' n1 e e'"
        by (auto simp: moved_def split: if_splits)
    qed
    moreover have "moved i h n h1' n1 (k, mem) (k, mem\<lparr>linked_memories := n\<rparr>)"
      using True here ih(1) by (simp add: moved_def)
    ultimately show ?thesis using eq ih(1) keep by simp
  next
    case False
    obtain r1 h1' n1 where rec: "cascade i rest h n = (r1, h1', n1)"
      by (cases "cascade i rest h n") auto
    with False "2.prems"(1) have eq: "es' = (k, mem) # r1" "h' = h1'" "n' = n1"
      by simp_all
    from "2.IH"(2)[OF False rec rest_lt]
    have ih: "n \<le> n1" "\<forall>r<n. h1' r = h r" "list_all2 (moved i h n h1' n1) rest r1"
      by blast+
    have "moved i h n h1' n1 (k, mem) (k, mem)"
      using False by (simp add: moved_def)
    with ih eq show ?thesis by simp
  qed
qed

lemma moved_ref_cases:
  "moved i h n h' n' e e' \<Longrightarrow> linked_memories (snd e) < n \<Longrightarrow>
     (linked_memories (snd e') = linked_memories (snd e) \<or> n \<le> linked_memories (snd e')) \<and>
     linked_memories (snd e') < max n n'"
  by (auto simp: moved_def split: if_splits)


lemma cascade_frame:
  "cascade i es h n = (es', h', n') \<Longrightarrow>
     list_all2 (\<lambda>e e'. fst e' = fst e \<and> snd e' = (snd e)\<lparr>linked_memories := linked_memories (snd e')\<rparr>) es es'"
proof (induction i es h n arbitrary: es' h' n' rule: cascade.induct)
  case (1 i h n)
  then show ?case by simp
next
  case (2 i k mem rest h n)
  show ?case
  proof (cases "i \<in> set (h (linked_memories mem))")
    case True
    let ?h1 = "h(n := filter (\<lambda>linkId. linkId \<noteq> i) (h (linked_memories mem)))"
    obtain r1 h1' n1 where rec: "cascade i rest ?h1 (Suc n) = (r1, h1', n1)"
      by (cases "cascade i rest ?h1 (Suc n)") auto
    with True "2.prems" have eq: "es' = (k, mem\<lparr>linked_memories := n\<rparr>) # r1"
      by simp
    from "2.IH"(1)[OF True rec] show ?thesis
      unfolding eq by simp
  next
    case False
    obtain r1 h1' n1 where rec: "cascade i rest h n = (r1, h1', n1)"
      by (cases "cascade i rest h n") auto
    with False "2.prems" have eq: "es' = (k, mem) # r1"
      by simp
    from "2.IH"(2)[OF False rec] show ?thesis
      unfolding eq by simp
  qed
qed


lemma scores_Create: 
  assumes "scores_in_range s" and "supplies_in_range (Create d g)"
  shows "scores_in_range (apply_operation s (Create d g))"
proof -
  have "in_range 0 1 (importance (snd (createMemory s d g)))
        \<and> in_range (-1) 1 (emotion_score (snd (createMemory s d g)))"
    using assms(2) by (cases "d_linked_memories d") (simp_all add: createMemory_None createMemory_Some newMemory_fields)
  with assms(1) show ?thesis
    by (simp add: scores_in_range_def createMemory_memories list_all_map_set)
qed

lemma scores_Update:
  assumes "scores_in_range s" and "supplies_in_range (Update i u)"
  shows "scores_in_range (apply_operation s (Update i u))"
proof (cases "map_get (memories s) i")
  case None
  with assms show ?thesis by (simp add: updateMemory_None)
next
  case (Some m)
  then have "in_range 0 1 (importance m)" "in_range (-1) 1 (emotion_score m)"
    using assms(1) map_get_in_set[OF Some] by (auto simp: scores_in_range_def list_all_iff)
  with assms(2) have "in_range 0 1 (importance (updatedMemory m i u))
        \<and> in_range (-1) 1 (emotion_score (updatedMemory m i u))"
    by (simp add: updatedMemory_fields spread_def split: option.splits)
  with assms(1) show ?thesis
    by (simp add: scores_in_range_def updateMemory_Some[OF Some] list_all_map_set)
qed

lemma scores_Delete:
  assumes "scores_in_range s"
  shows "scores_in_range (apply_operation s (Delete i))"
proof (cases "deleteMemory s i")
  case (Inl e)
  with assms show ?thesis by simp
next
  case (Inr s')
  then obtain es h n where c: "cascade i (map_delete (memories s) i) (arrays s) (fresh s) = (es, h, n)"
    and s': "s' = s\<lparr>memories := es, arrays := h, fresh := n\<rparr>"
    by (auto simp: deleteMemory_def split: option.splits prod.splits)
  have fr: "list_all2 (\<lambda>e e'. fst e' = fst e \<and> snd e' = (snd e)\<lparr>linked_memories := linked_memories (snd e')\<rparr>)
      (map_delete (memories s) i) es"
    using cascade_frame[OF c] .
  have "list_all (\<lambda>e. in_range 0 1 (importance (snd e)) \<and> in_range (-1) 1 (emotion_score (snd e))) es"
    unfolding list_all_iff
  proof
    fix e' assume "e' \<in> set es"
    then obtain e where e: "e \<in> set (map_delete (memories s) i)"
       "snd e' = (snd e)\<lparr>linked_memories := linked_memories (snd e')\<rparr>"
      using list_all2_right[OF fr] by blast
    from e(2) have "importance (snd e') = importance (snd e)" "emotion_score (snd e') = emotion_score (snd e)"
      by (cases "snd e"; cases "snd e'"; simp)+
    moreover from e(1) assms have "in_range 0 1 (importance (snd e)) \<and> in_range (-1) 1 (emotion_score (snd e))"
      by (auto simp: scores_in_range_def list_all_iff map_delete_def)
    ultimately show "in_range 0 1 (importance (snd e')) \<and> in_range (-1) 1 (emotion_score (snd e'))"
      by simp
  qed
  then show ?thesis using Inr s' by (simp add: scores_in_range_def)
qed

lemma linkMemories_memories: "linkMemories s a b = Inr s' \<Longrightarrow> memories s' = memories s \<and> fresh s' = fresh s"
  by (auto simp: linkMemories_def Let_def split: option.splits)

lemma scores_Link:
  assumes "scores_in_range s"
  shows "scores_in_range (apply_operation s (Link a b))"
proof (cases "linkMemories s a b")
  case (Inl e)
  with assms show ?thesis by simp
next
  case (Inr s')
  with assms linkMemories_memories[OF Inr] show ?thesis by (simp add: scores_in_range_def)
qed

lemma scores_Get:
  assumes "scores_in_range s"
  shows "scores_in_range (apply_operation s (Get i t))"
proof (cases "map_get (memories s) i")
  case None
  with assms show ?thesis by (simp add: getMemory_None)
next
  case (Some m)
  then have "in_range 0 1 (importance m)" "in_range (-1) 1 (emotion_score m)"
    using assms(1) map_get_in_set[OF Some] by (auto simp: scores_in_range_def list_all_iff)
  with assms show ?thesis
    by (simp add: scores_in_range_def getMemory_Some[OF Some] list_all_map_set)
qed

lemma scores_step:
  assumes "scores_in_range s" and "supplies_in_range op"
  shows "scores_in_range (apply_operation s op)"
proof (cases op)
  case (Allocate xs)
  with assms show ?thesis by (simp add: scores_in_range_def new_array_def)
qed (use assms scores_Create scores_Update scores_Delete scores_Link scores_Get in blast)+

lemma newMemory_plain: "newMemory (plain_draft t imp (Fin 0)) (gen k) r = plain_memory k t imp r"
  by (simp add: newMemory_def plain_draft_def gen_def plain_memory_def generateGlimpseId_def)

lemma plain_draft_linked: "d_linked_memories (plain_draft t imp emo) = None"
  by (simp add: plain_draft_def)

lemma plain_memory_fields:
  "id_mem (plain_memory k t imp r) = ''mem_'' @ k @ ''_x''"
  "linked_memories (plain_memory k t imp r) = r"
  "importance (plain_memory k t imp r) = imp"
  "created_at (plain_memory k t imp r) = Fin 1000"
  "glimpse_id (plain_memory k t imp r) = ''>gl0'' @ k"
  by (simp_all add: plain_memory_def)

lemma two_memories_eval:
  "memories two_memories =
     [(''mem_1_x'', plain_memory ''1'' ''A'' (Fin (9/10)) 0), (''mem_2_x'', plain_memory ''2'' ''B'' (Fin (1/2)) 1)]"
  "fresh two_memories = 2"
  "arrays two_memories = (\<lambda>r. [])"
  by (auto simp add: two_memories_def run_def empty_manager_def initialize_def createMemory_None
      plain_draft_linked newMemory_plain plain_memory_fields fun_eq_iff)

lemma keyed_two_memories: "keyed two_memories"
  by (simp add: keyed_def two_memories_eval plain_memory_fields)

lemma refs_valid_two_memories: "refs_valid two_memories"
  by (simp add: refs_valid_def two_memories_eval plain_memory_fields)

subsection \<open>Update, link and delete\<close>

text \<open>
  C6. For every existing id \<open>i\<close> (in a state where each record is stored under its
  own id, as in every state the operations produce) and every update partial \<open>u\<close>,
  also one that sets \<open>id\<close>, \<open>created_at\<close> or \<open>glimpse_id\<close>, \<open>updateMemory\<close> succeeds and the
  record stored under \<open>i\<close> afterwards has the \<open>id\<close>, \<open>created_at\<close> and \<open>glimpse_id\<close> of
  the record stored before, while every other field is the partial's value where the
  partial has one and the old value otherwise.
\<close>

theorem updateMemory_immutable_fields:
  assumes "map_get (memories s) i = Some m" and "keyed s"
  shows "\<exists>s' m'. updateMemory s i u = Inr (s', m') \<and> map_get (memories s') i = Some m'
           \<and> id_mem m' = id_mem m \<and> created_at m' = created_at m \<and> glimpse_id m' = glimpse_id m
           \<and> text_mem m' = spread (text_mem m) (p_text u)
           \<and> observation m' = spread (observation m) (p_observation u)
           \<and> conversation m' = spread (conversation m) (p_conversation u)
           \<and> context_mem m' = spread (context_mem m) (p_context u)
           \<and> importance m' = spread (importance m) (p_importance u)
           \<and> emotion_score m' = spread (emotion_score m) (p_emotion_score u)
           \<and> linked_memories m' = spread (linked_memories m) (p_linked_memories u)
           \<and> last_accessed m' = (case p_last_accessed u of Some t \<Rightarrow> Some t | None \<Rightarrow> last_accessed m)
           \<and> metadata m' = (case p_metadata u of Some md \<Rightarrow> Some md | None \<Rightarrow> metadata m)"
proof -
  from assms have "id_mem m = i"
    using map_get_in_set[of "memories s" i m] by (auto simp: keyed_def list_all_iff)
  then show ?thesis
    by (simp add: updateMemory_Some[OF assms(1)] map_get_map_set updatedMemory_def)
qed

theorem updateMemory_immutable_fields_witness:
  "map_get (memories two_memories) ''mem_1_x'' = Some (plain_memory ''1'' ''A'' (Fin (9/10)) 0)
   \<and> keyed two_memories
   \<and> p_id sneaky_update = Some ''mem_9_x''
   \<and> p_created_at sneaky_update = Some (Fin 5)
   \<and> p_glimpse_id sneaky_update = Some ''>glffff''
   \<and> (\<exists>s' m'. updateMemory two_memories ''mem_1_x'' sneaky_update = Inr (s', m')
         \<and> map_get (memories s') ''mem_1_x'' = Some m'
         \<and> id_mem m' = ''mem_1_x'' \<and> created_at m' = Fin 1000 \<and> glimpse_id m' = ''>gl01''
         \<and> text_mem m' = ''edited'')"
proof -
  have a: "map_get (memories two_memories) ''mem_1_x'' = Some (plain_memory ''1'' ''A'' (Fin (9/10)) 0)"
    by (simp add: two_memories_eval map_get_def)
  show ?thesis
    using a keyed_two_memories updateMemory_immutable_fields[OF a keyed_two_memories, of sneaky_update]
    by (auto simp: sneaky_update_def no_update_def plain_memory_fields spread_def)
qed

text \<open>
  C2. For every pair of existing memories \<open>a\<close> and \<open>b\<close>, \<open>linkMemories(a, b)\<close> succeeds,
  leaves the records in the map as they are, and afterwards \<open>b\<close> is in the linked array
  of \<open>a\<close> and \<open>a\<close> is in the linked array of \<open>b\<close>; a second \<open>linkMemories(a, b)\<close>
  returns the very same state.
\<close>

theorem linkMemories_symmetric_idempotent:
  assumes "map_get (memories s) a = Some ma" and "map_get (memories s) b = Some mb"
  shows "\<exists>s'. linkMemories s a b = Inr s' \<and> memories s' = memories s
           \<and> b \<in> set (linked s' ma) \<and> a \<in> set (linked s' mb)
           \<and> linkMemories s' a b = Inr s'"
  using assms
  by (auto simp: linkMemories_def Let_def linked_def push_def)

theorem linkMemories_symmetric_idempotent_witness:
  "map_get (memories two_memories) ''mem_1_x'' = Some (plain_memory ''1'' ''A'' (Fin (9/10)) 0)
   \<and> map_get (memories two_memories) ''mem_2_x'' = Some (plain_memory ''2'' ''B'' (Fin (1/2)) 1)
   \<and> (\<exists>s'. linkMemories two_memories ''mem_1_x'' ''mem_2_x'' = Inr s' \<and> memories s' = memories two_memories
         \<and> ''mem_2_x'' \<in> set (linked s' (plain_memory ''1'' ''A'' (Fin (9/10)) 0))
         \<and> ''mem_1_x'' \<in> set (linked s' (plain_memory ''2'' ''B'' (Fin (1/2)) 1))
         \<and> linkMemories s' ''mem_1_x'' ''mem_2_x'' = Inr s')"
proof -
  have a: "map_get (memories two_memories) ''mem_1_x'' = Some (plain_memory ''1'' ''A'' (Fin (9/10)) 0)"
    by (simp add: two_memories_eval map_get_def)
  have b: "map_get (memories two_memories) ''mem_2_x'' = Some (plain_memory ''2'' ''B'' (Fin (1/2)) 1)"
    by (simp add: two_memories_eval map_get_def)
  show ?thesis
    using a b linkMemories_symmetric_idempotent[OF a b] by simp
qed

text \<open>
  C3. After a successful \<open>deleteMemory(a)\<close> (in a state where every record's array is
  an allocated one) the key \<open>a\<close> is gone, the surviving keys are the other keys in
  their old order, and the id \<open>a\<close> is in the linked array of no surviving record.
\<close>

theorem deleteMemory_cascade:
  assumes "deleteMemory s a = Inr s'" and "refs_valid s"
  shows "map_get (memories s') a = None
         \<and> map fst (memories s') = filter (\<lambda>k. k \<noteq> a) (map fst (memories s))
         \<and> list_all (\<lambda>e. a \<notin> set (linked s' (snd e))) (memories s')"
proof -
  obtain es h n where c: "cascade a (map_delete (memories s) a) (arrays s) (fresh s) = (es, h, n)"
    and s': "s' = s\<lparr>memories := es, arrays := h, fresh := n\<rparr>"
    using assms(1) by (auto simp: deleteMemory_def split: option.splits prod.splits)
  from assms(2) have lt: "list_all (\<lambda>e. linked_memories (snd e) < fresh s) (map_delete (memories s) a)"
    by (simp add: refs_valid_def list_all_map_delete)
  from cascade_moved[OF c lt]
  have keep: "\<forall>r<fresh s. h r = arrays s r"
    and mv: "list_all2 (moved a (arrays s) (fresh s) h n) (map_delete (memories s) a) es"
    by blast+
  have keys: "map fst es = map fst (map_delete (memories s) a)"
    using mv by (induction rule: list_all2_induct) (simp_all add: moved_def)
  have gone: "list_all (\<lambda>e. a \<notin> set (h (linked_memories (snd e)))) es"
    unfolding list_all_iff
  proof
    fix e' assume "e' \<in> set es"
    then obtain e where e: "e \<in> set (map_delete (memories s) a)" "moved a (arrays s) (fresh s) h n e e'"
      using list_all2_right[OF mv] by blast
    from e(1) lt have "linked_memories (snd e) < fresh s" by (simp add: list_all_iff)
    with e(2) keep show "a \<notin> set (h (linked_memories (snd e')))"
      by (auto simp: moved_def split: if_splits)
  qed
  have "map_get es a = None"
    using keys by (simp add: map_get_None_iff keys_map_delete)
  then show ?thesis
    using gone keys s' by (simp add: linked_def keys_map_delete)
qed

lemma deleteMemory_succeeds:
  "map_get (memories s) a = Some m \<Longrightarrow> \<exists>s'. deleteMemory s a = Inr s'"
  by (auto simp: deleteMemory_def split: prod.splits)

lemma linked_pair_eval:
  "memories linked_pair = memories two_memories"
  "fresh linked_pair = 2"
  "arrays linked_pair = (\<lambda>r. [])(0 := [''mem_2_x''], 1 := [''mem_1_x''])"
  by (auto simp: linked_pair_def run_def linkMemories_def two_memories_eval map_get_def
      plain_memory_fields push_def fun_eq_iff)

lemma refs_valid_linked_pair: "refs_valid linked_pair"
  by (simp add: refs_valid_def linked_pair_eval two_memories_eval plain_memory_fields)

theorem deleteMemory_cascade_witness:
  "deleteMemory linked_pair ''mem_1_x'' =
       Inr \<lparr> memories = [(''mem_2_x'', plain_memory ''2'' ''B'' (Fin (1/2)) 2)],
             arrays = (\<lambda>r. [])(0 := [''mem_2_x''], 1 := [''mem_1_x''], 2 := []), fresh = 3 \<rparr>
   \<and> refs_valid linked_pair
   \<and> ''mem_1_x'' \<in> set (linked linked_pair (plain_memory ''2'' ''B'' (Fin (1/2)) 1))
   \<and> list_all (\<lambda>e. ''mem_1_x'' \<notin> set (linked
          \<lparr> memories = [(''mem_2_x'', plain_memory ''2'' ''B'' (Fin (1/2)) 2)],
             arrays = (\<lambda>r. [])(0 := [''mem_2_x''], 1 := [''mem_1_x''], 2 := []), fresh = 3 \<rparr> (snd e)))
        [(''mem_2_x'', plain_memory ''2'' ''B'' (Fin (1/2)) 2)]"
proof -
  have d: "deleteMemory linked_pair ''mem_1_x'' =
       Inr \<lparr> memories = [(''mem_2_x'', plain_memory ''2'' ''B'' (Fin (1/2)) 2)],
             arrays = (\<lambda>r. [])(0 := [''mem_2_x''], 1 := [''mem_1_x''], 2 := []), fresh = 3 \<rparr>"
    by (simp add: deleteMemory_def linked_pair_eval two_memories_eval map_get_def map_delete_def
        plain_memory_fields plain_memory_def)
  show ?thesis
    using d refs_valid_linked_pair deleteMemory_cascade[OF d refs_valid_linked_pair]
    by (simp add: linked_def linked_pair_eval plain_memory_fields)
qed


lemma distinct_refs_map_set:
  assumes "distinct (map fst es)"
      and "distinct (map (\<lambda>e. g (snd e)) es)"
      and "list_all (\<lambda>e. fst e = k \<or> g (snd e) \<noteq> g v) es"
  shows "distinct (map (\<lambda>e. g (snd e)) (map_set es k v))"
  using assms
proof (induction es)
  case Nil
  then show ?case by simp
next
  case (Cons e es)
  obtain k' v' where e: "e = (k', v')" by (cases e)
  show ?case
  proof (cases "k' = k")
    case True
    with Cons.prems e have "\<forall>x\<in>set es. g (snd x) \<noteq> g v"
      by (force simp: list_all_iff)
    with Cons.prems e True show ?thesis by auto
  next
    case False
    from Cons.prems e have ih: "distinct (map (\<lambda>e. g (snd e)) (map_set es k v))"
      by (intro Cons.IH) simp_all
    have "g v' \<notin> (\<lambda>e. g (snd e)) ` set (map_set es k v)"
    proof
      assume "g v' \<in> (\<lambda>e. g (snd e)) ` set (map_set es k v)"
      then obtain x where x: "x \<in> set (map_set es k v)" "g (snd x) = g v'" by auto
      with set_map_set[of es k v] have "x = (k, v) \<or> x \<in> set es" by auto
      with x Cons.prems e False show False by (force simp: image_iff)
    qed
    with ih e False show ?thesis by simp
  qed
qed


lemma unique_keys_inj:
  assumes "unique_keys s" and "(k, m1) \<in> set (memories s)" and "(k, m2) \<in> set (memories s)"
  shows "m1 = m2"
  using assms unfolding unique_keys_def
  by (meson eq_key_imp_eq_value)




subsection \<open>Link arrays without self-links\<close>









subsection \<open>Scores are stored as supplied\<close>

text \<open>
  C1, as the code has it. The manager writes \<open>importance\<close> and \<open>emotion_score\<close> exactly
  as the draft or the update partial supplies them; it does not clamp. So: if every
  stored importance is in [0,1] and every stored emotion score in [-1,1], and every
  create and update of a sequence of calls supplies scores in these intervals, then
  the same holds of every record after the sequence.
\<close>

theorem scores_in_range_preserved:
  assumes "scores_in_range s" and "list_all supplies_in_range ops"
  shows "scores_in_range (run s ops)"
  using assms unfolding run_def
  by (induction ops arbitrary: s) (simp_all add: scores_step)

theorem scores_in_range_preserved_witness:
  "scores_in_range two_memories
   \<and> list_all supplies_in_range
        [Create (plain_draft ''C'' (Fin 1) (Fin (-1))) (gen ''3''), Link ''mem_1_x'' ''mem_3_x'']
   \<and> scores_in_range (run two_memories
        [Create (plain_draft ''C'' (Fin 1) (Fin (-1))) (gen ''3''), Link ''mem_1_x'' ''mem_3_x''])"
proof -
  have a: "scores_in_range two_memories"
    by (simp add: scores_in_range_def two_memories_eval plain_memory_def)
  have b: "list_all supplies_in_range
        [Create (plain_draft ''C'' (Fin 1) (Fin (-1))) (gen ''3''), Link ''mem_1_x'' ''mem_3_x'']"
    by (simp add: plain_draft_def)
  show ?thesis using a b scores_in_range_preserved[OF a b] by simp
qed

text \<open>
  C1 as stated fails: a draft with importance 1.4 and emotion score -5 is stored with
  these very values.
\<close>

theorem createMemory_stores_out_of_range:
  "\<not> scores_in_range (run empty_manager [Create (plain_draft ''A'' (Fin (7/5)) (Fin (-5))) (gen ''1'')])
   \<and> map_option importance
        (map_get (memories (run empty_manager
           [Create (plain_draft ''A'' (Fin (7/5)) (Fin (-5))) (gen ''1'')])) ''mem_1_x'')
      = Some (Fin (7/5))
   \<and> map_option emotion_score
        (map_get (memories (run empty_manager
           [Create (plain_draft ''A'' (Fin (7/5)) (Fin (-5))) (gen ''1'')])) ''mem_1_x'')
      = Some (Fin (-5))"
  by (simp add: run_def empty_manager_def initialize_def createMemory_None plain_draft_linked
       newMemory_fields scores_in_range_def plain_draft_def map_get_def gen_def)

subsection \<open>Conditions every call keeps\<close>

text \<open>
  The two conditions on a state used above hold in every state the manager reaches:
  \<open>initialize\<close> stores each record under its own id and every call keeps that; every
  call that passes only allocated arrays keeps every record's array allocated.
\<close>

lemma foldl_map_set_keyed:
  "list_all (\<lambda>e. id_mem (snd e) = fst e) acc \<Longrightarrow>
     list_all (\<lambda>e. id_mem (snd e) = fst e) (foldl (\<lambda>entries m. map_set entries (id_mem m) m) acc ms)"
  by (induction ms arbitrary: acc) (simp_all add: list_all_map_set)

lemma keyed_initialize: "keyed (initialize memoriesArray h n)"
  by (simp add: keyed_def initialize_def foldl_map_set_keyed)

lemma keyed_step:
  assumes "keyed s"
  shows "keyed (apply_operation s op)"
proof (cases op)
  case (Allocate xs)
  with assms show ?thesis by (simp add: keyed_def new_array_def)
next
  case (Create d g)
  with assms show ?thesis
    by (simp add: keyed_def createMemory_memories list_all_map_set)
next
  case (Update i u)
  show ?thesis
  proof (cases "map_get (memories s) i")
    case None
    with Update assms show ?thesis by (simp add: updateMemory_None)
  next
    case (Some m)
    with Update assms show ?thesis
      by (simp add: keyed_def updateMemory_Some[OF Some] list_all_map_set updatedMemory_fields(1))
  qed
next
  case (Delete i)
  show ?thesis
  proof (cases "deleteMemory s i")
    case (Inl e)
    with Delete assms show ?thesis by simp
  next
    case (Inr s')
    then obtain es h n where c: "cascade i (map_delete (memories s) i) (arrays s) (fresh s) = (es, h, n)"
      and s': "s' = s\<lparr>memories := es, arrays := h, fresh := n\<rparr>"
      by (auto simp: deleteMemory_def split: option.splits prod.splits)
    have "list_all (\<lambda>e. id_mem (snd e) = fst e) es"
      unfolding list_all_iff
    proof
      fix e' assume "e' \<in> set es"
      then obtain e where e: "e \<in> set (map_delete (memories s) i)" "fst e' = fst e"
         "snd e' = (snd e)\<lparr>linked_memories := linked_memories (snd e')\<rparr>"
        using list_all2_right[OF cascade_frame[OF c]] by blast
      from e(3) have "id_mem (snd e') = id_mem (snd e)"
        by (cases "snd e"; cases "snd e'"; simp)
      moreover from e(1) assms have "id_mem (snd e) = fst e"
        by (auto simp: keyed_def list_all_iff map_delete_def)
      ultimately show "id_mem (snd e') = fst e'" using e(2) by simp
    qed
    with Delete Inr s' show ?thesis by (simp add: keyed_def)
  qed
next
  case (Link a b)
  show ?thesis
  proof (cases "linkMemories s a b")
    case (Inl e)
    with Link assms show ?thesis by simp
  next
    case (Inr s')
    with Link assms linkMemories_memories[OF Inr] show ?thesis by (simp add: keyed_def)
  qed
next
  case (Get i t)
  show ?thesis
  proof (cases "map_get (memories s) i")
    case None
    with Get assms show ?thesis by (simp add: getMemory_None)
  next
    case (Some m)
    then have "id_mem m = i"
      using assms map_get_in_set[OF Some] by (auto simp: keyed_def list_all_iff)
    with Get assms show ?thesis
      by (simp add: keyed_def getMemory_Some[OF Some] list_all_map_set)
  qed
qed

lemma keyed_run: "keyed s \<Longrightarrow> keyed (run s ops)"
  unfolding run_def by (induction ops arbitrary: s) (simp_all add: keyed_step)

lemma list_all_less_mono:
  "list_all (\<lambda>e. linked_memories (snd e) < (n::nat)) es \<Longrightarrow> n \<le> n' \<Longrightarrow>
     list_all (\<lambda>e. linked_memories (snd e) < n') es"
  by (auto simp: list_all_iff)

lemma refs_valid_step:
  assumes "refs_valid s" and "passes_allocated s op"
  shows "refs_valid (apply_operation s op)"
proof (cases op)
  case (Allocate xs)
  with assms show ?thesis
    by (auto simp: refs_valid_def new_array_def list_all_iff less_Suc_eq)
next
  case (Create d g)
  show ?thesis
  proof (cases "d_linked_memories d")
    case None
    from assms(1) have "list_all (\<lambda>e. linked_memories (snd e) < Suc (fresh s)) (memories s)"
      by (auto simp: refs_valid_def list_all_iff less_Suc_eq)
    with Create None show ?thesis
      by (simp add: refs_valid_def createMemory_None list_all_map_set newMemory_fields)
  next
    case (Some r)
    with Create assms show ?thesis
      by (simp add: refs_valid_def createMemory_Some list_all_map_set newMemory_fields)
  qed
next
  case (Update i u)
  show ?thesis
  proof (cases "map_get (memories s) i")
    case None
    with Update assms show ?thesis by (simp add: updateMemory_None)
  next
    case (Some m)
    then have "linked_memories m < fresh s"
      using assms(1) map_get_in_set[OF Some] by (auto simp: refs_valid_def list_all_iff)
    with Update assms(2) have "linked_memories (updatedMemory m i u) < fresh s"
      by (simp add: updatedMemory_fields spread_def split: option.splits)
    with Update assms(1) show ?thesis
      by (simp add: refs_valid_def updateMemory_Some[OF Some] list_all_map_set)
  qed
next
  case (Delete i)
  show ?thesis
  proof (cases "deleteMemory s i")
    case (Inl e)
    with Delete assms show ?thesis by simp
  next
    case (Inr s')
    then obtain es h n where c: "cascade i (map_delete (memories s) i) (arrays s) (fresh s) = (es, h, n)"
      and s': "s' = s\<lparr>memories := es, arrays := h, fresh := n\<rparr>"
      by (auto simp: deleteMemory_def split: option.splits prod.splits)
    from assms(1) have lt: "list_all (\<lambda>e. linked_memories (snd e) < fresh s) (map_delete (memories s) i)"
      by (simp add: refs_valid_def list_all_map_delete)
    from cascade_moved[OF c lt] have le: "fresh s \<le> n"
      and mv: "list_all2 (moved i (arrays s) (fresh s) h n) (map_delete (memories s) i) es"
      by blast+
    have "list_all (\<lambda>e. linked_memories (snd e) < n) es"
      unfolding list_all_iff
    proof
      fix e' assume "e' \<in> set es"
      then obtain e where e: "e \<in> set (map_delete (memories s) i)" "moved i (arrays s) (fresh s) h n e e'"
        using list_all2_right[OF mv] by blast
      from e(1) lt have "linked_memories (snd e) < fresh s" by (simp add: list_all_iff)
      with e(2) le show "linked_memories (snd e') < n"
        by (auto simp: moved_def split: if_splits)
    qed
    with Delete Inr s' show ?thesis by (simp add: refs_valid_def)
  qed
next
  case (Link a b)
  show ?thesis
  proof (cases "linkMemories s a b")
    case (Inl e)
    with Link assms show ?thesis by simp
  next
    case (Inr s')
    with Link assms linkMemories_memories[OF Inr] show ?thesis by (simp add: refs_valid_def)
  qed
next
  case (Get i t)
  show ?thesis
  proof (cases "map_get (memories s) i")
    case None
    with Get assms show ?thesis by (simp add: getMemory_None)
  next
    case (Some m)
    then have "linked_memories m < fresh s"
      using assms(1) map_get_in_set[OF Some] by (auto simp: refs_valid_def list_all_iff)
    with Get assms show ?thesis
      by (simp add: refs_valid_def getMemory_Some[OF Some] list_all_map_set)
  qed
qed

lemma refs_valid_run: "refs_valid s \<Longrightarrow> all_allocated s ops \<Longrightarrow> refs_valid (run s ops)"
  unfolding run_def by (induction ops arbitrary: s) (simp_all add: refs_valid_step)

lemma refs_valid_empty: "refs_valid empty_manager"
  by (simp add: refs_valid_def empty_manager_def initialize_def)

subsection \<open>Self-links over a sequence of calls\<close>

lemma sound_empty: "well_formed empty_manager \<and> no_self_links empty_manager \<and> no_duplicates empty_manager"
  by (simp add: empty_manager_def initialize_def well_formed_def no_self_links_def no_duplicates_def
      unique_keys_def keyed_def refs_valid_def unshared_def)



subsection \<open>Link arrays without duplicates\<close>

lemma push_absent_distinct: "distinct (h q) \<Longrightarrow> distinct (push_absent h r x q)"
  by (auto simp: push_absent_def push_def)

lemma linkMemories_arrays:
  assumes "linkMemories s a b = Inr s'"
  shows "\<exists>ra rb. arrays s' = push_absent (push_absent (arrays s) ra b) rb a"
proof -
  from assms obtain ma mb where "map_get (memories s) a = Some ma" "map_get (memories s) b = Some mb"
    by (auto simp: linkMemories_def split: option.splits)
  with assms have "arrays s' =
      push_absent (push_absent (arrays s) (linked_memories ma) b) (linked_memories mb) a"
    by (auto simp: linkMemories_def Let_def push_absent_def)
  then show ?thesis by blast
qed

text \<open>
  \<open>linkMemories\<close> alone, for every pair of arguments and whatever the records share:
  arrays without duplicates stay without duplicates.
\<close>

lemma linkMemories_keeps_no_duplicates:
  assumes "no_duplicates s" and "linkMemories s a b = Inr s'"
  shows "no_duplicates s'"
proof -
  from linkMemories_arrays[OF assms(2)] obtain ra rb where
    h: "arrays s' = push_absent (push_absent (arrays s) ra b) rb a" by blast
  have "\<forall>e\<in>set (memories s). distinct (arrays s (linked_memories (snd e)))"
    using assms(1) by (simp add: no_duplicates_def linked_def list_all_iff)
  then have "\<forall>e\<in>set (memories s). distinct (arrays s' (linked_memories (snd e)))"
    unfolding h using push_absent_distinct by blast
  with linkMemories_memories[OF assms(2)] show ?thesis
    by (simp add: no_duplicates_def linked_def list_all_iff)
qed




text \<open>A store loaded from records that hold allocated, pairwise different arrays is well-formed.\<close>

lemma foldl_map_set_well_formed:
  assumes "distinct (map fst acc)" and "list_all (\<lambda>e. id_mem (snd e) = fst e) acc"
      and "list_all (\<lambda>e. linked_memories (snd e) < n) acc"
      and "distinct (map (\<lambda>e. linked_memories (snd e)) acc)"
      and "distinct (map linked_memories ms)" and "list_all (\<lambda>m. linked_memories m < n) ms"
      and "(\<lambda>e. linked_memories (snd e)) ` set acc \<inter> linked_memories ` set ms = {}"
  shows "well_formed \<lparr> memories = foldl (\<lambda>entries m. map_set entries (id_mem m) m) acc ms,
                        arrays = h, fresh = n \<rparr>"
  using assms
proof (induction ms arbitrary: acc)
  case Nil
  then show ?case
    by (simp add: well_formed_def unique_keys_def keyed_def refs_valid_def unshared_def)
next
  case (Cons m ms)
  let ?acc = "map_set acc (id_mem m) m"
  have sub: "set ?acc \<subseteq> insert (id_mem m, m) (set acc)" by (rule set_map_set)
  have 1: "distinct (map fst ?acc)" using Cons.prems(1) by (rule distinct_keys_map_set)
  have 2: "list_all (\<lambda>e. id_mem (snd e) = fst e) ?acc"
    using Cons.prems(2) by (simp add: list_all_map_set)
  have 3: "list_all (\<lambda>e. linked_memories (snd e) < n) ?acc"
    using Cons.prems(3,6) by (simp add: list_all_map_set)
  have "list_all (\<lambda>e. fst e = id_mem m \<or> linked_memories (snd e) \<noteq> linked_memories m) acc"
    using Cons.prems(7) by (force simp: list_all_iff)
  then have 4: "distinct (map (\<lambda>e. linked_memories (snd e)) ?acc)"
    using distinct_refs_map_set[of acc linked_memories "id_mem m" m] Cons.prems(1,4) by simp
  have 5: "distinct (map linked_memories ms)" "list_all (\<lambda>m. linked_memories m < n) ms"
    using Cons.prems(5,6) by simp_all
  have 6: "(\<lambda>e. linked_memories (snd e)) ` set ?acc \<inter> linked_memories ` set ms = {}"
    using sub Cons.prems(5,7) by fastforce
  from Cons.IH[OF 1 2 3 4 5 6] show ?case by simp
qed

lemma well_formed_initialize:
  "distinct (map linked_memories memoriesArray) \<Longrightarrow>
   list_all (\<lambda>m. linked_memories m < n) memoriesArray \<Longrightarrow>
   well_formed (initialize memoriesArray h n)"
  unfolding initialize_def by (rule foldl_map_set_well_formed) simp_all




section \<open>Properties of searchMemories\<close>

lemma positive_sub_neq: "positive (js_sub b a) \<Longrightarrow> a \<noteq> b"
  by (cases a; cases b) auto

lemma positive_sub_iff: "a \<noteq> NaN \<Longrightarrow> b \<noteq> NaN \<Longrightarrow> positive (js_sub b a) = (\<not> js_le b a)"
  by (cases a; cases b) auto

lemma js_le_total: "a \<noteq> NaN \<Longrightarrow> b \<noteq> NaN \<Longrightarrow> js_le a b \<or> js_le b a"
  by (cases a; cases b) auto

lemma js_le_trans: "js_le a b \<Longrightarrow> js_le b c \<Longrightarrow> js_le a c"
  by (cases a; cases b; cases c) auto

lemma js_ge_not_NaN: "js_ge a t \<Longrightarrow> a \<noteq> NaN"
  by (cases a; cases t) (auto simp: js_ge_def)

lemma set_insert_by: "set (insert_by cmp x ys) = insert x (set ys)"
  by (induction ys) auto

lemma mset_insert_by: "mset (insert_by cmp x ys) = add_mset x (mset ys)"
  by (induction ys) auto

lemma mset_Array_sort: "mset (Array_sort cmp xs) = mset xs"
  by (induction xs) (simp_all add: Array_sort_def mset_insert_by)

lemma set_Array_sort: "set (Array_sort cmp xs) = set xs"
  using mset_Array_sort[of cmp xs] by (metis set_mset_mset)

lemma length_Array_sort: "length (Array_sort cmp xs) = length xs"
  using mset_Array_sort[of cmp xs] by (metis size_mset)

lemma filter_insert_by:
  "filter (\<lambda>m. importance m = v) (insert_by by_importance x ys) =
     (if importance x = v then x # filter (\<lambda>m. importance m = v) ys else filter (\<lambda>m. importance m = v) ys)"
proof (induction ys)
  case Nil
  then show ?case by simp
next
  case (Cons y ys)
  show ?case
  proof (cases "positive (by_importance x y)")
    case True
    then have "importance x \<noteq> importance y"
      using positive_sub_neq[of "importance y" "importance x"] by (simp add: by_importance_def)
    with True Cons show ?thesis by auto
  next
    case False
    then show ?thesis by simp
  qed
qed

lemma Array_sort_stable:
  "filter (\<lambda>m. importance m = v) (Array_sort by_importance xs) = filter (\<lambda>m. importance m = v) xs"
  by (induction xs) (simp_all add: Array_sort_def filter_insert_by)

lemma sorted_insert_by:
  assumes "sorted_wrt (\<lambda>a b. js_ge (importance a) (importance b)) ys"
      and "importance x \<noteq> NaN" and "\<forall>y\<in>set ys. importance y \<noteq> NaN"
  shows "sorted_wrt (\<lambda>a b. js_ge (importance a) (importance b)) (insert_by by_importance x ys)"
  using assms
proof (induction ys)
  case Nil
  then show ?case by simp
next
  case (Cons y ys)
  show ?case
  proof (cases "positive (by_importance x y)")
    case True
    then have xy: "js_le (importance x) (importance y)"
      using positive_sub_iff[of "importance x" "importance y"] js_le_total[of "importance x" "importance y"] Cons.prems
      by (auto simp: by_importance_def)
    from Cons have "sorted_wrt (\<lambda>a b. js_ge (importance a) (importance b)) (insert_by by_importance x ys)"
      by simp
    with True xy Cons.prems show ?thesis
      by (auto simp: set_insert_by js_ge_def)
  next
    case False
    then have yx: "js_le (importance y) (importance x)"
      using positive_sub_iff[of "importance x" "importance y"] Cons.prems
      by (auto simp: by_importance_def)
    have "\<forall>z\<in>set ys. js_le (importance z) (importance x)"
      using Cons.prems(1) yx js_le_trans by (auto simp: js_ge_def)
    with False yx Cons.prems show ?thesis
      by (auto simp: js_ge_def)
  qed
qed

lemma sorted_Array_sort:
  "\<forall>y\<in>set xs. importance y \<noteq> NaN \<Longrightarrow>
     sorted_wrt (\<lambda>a b. js_ge (importance a) (importance b)) (Array_sort by_importance xs)"
proof (induction xs)
  case Nil
  then show ?case by (simp add: Array_sort_def)
next
  case (Cons x xs)
  then have "sorted_wrt (\<lambda>a b. js_ge (importance a) (importance b)) (Array_sort by_importance xs)"
    by simp
  from sorted_insert_by[OF this] Cons.prems show ?case
    by (simp add: Array_sort_def set_Array_sort[unfolded Array_sort_def])
qed

lemma set_when_set: "set (when_set c present test rs) \<subseteq> set rs"
  by (auto simp: when_set_def split: option.splits)

lemma when_set_Some: "when_set (Some v) (\<lambda>t. True) test rs = filter (test v) rs"
  by (simp add: when_set_def)

lemma filtered_threshold:
  assumes "importance_threshold params = Some t"
  shows "\<forall>m\<in>set (filtered P s params). js_ge (importance m) t"
proof
  fix m assume "m \<in> set (filtered P s params)"
  then obtain rs where "m \<in> set (when_set (importance_threshold params) (\<lambda>t. True)
                       (\<lambda>t m. js_ge (importance m) t) rs)"
    unfolding filtered_def Let_def
    by (meson set_when_set subsetD)
  then show "js_ge (importance m) t"
    by (simp add: assms when_set_Some)
qed

lemma length_slice0_pos: "0 < n \<Longrightarrow> real (length (slice0 xs (Fin n))) \<le> n"
proof -
  assume "0 < n"
  then have "to_integer n = \<lfloor>n\<rfloor>" "0 \<le> \<lfloor>n\<rfloor>" by (simp_all add: to_integer_def)
  then have "length (slice0 xs (Fin n)) \<le> nat \<lfloor>n\<rfloor>" by simp
  then have "real (length (slice0 xs (Fin n))) \<le> real (nat \<lfloor>n\<rfloor>)" by linarith
  also have "\<dots> \<le> n" using \<open>0 \<le> \<lfloor>n\<rfloor>\<close> by linarith
  finally show ?thesis .
qed

lemma set_slice0: "set (slice0 xs l) \<subseteq> set xs"
  by (cases l) (auto dest: in_set_takeD)

lemma sorted_slice0: "sorted_wrt R xs \<Longrightarrow> sorted_wrt R (slice0 xs l)"
  by (cases l) (auto simp: sorted_wrt_take)

text \<open>
  C5, as the code has it. For every collection of records and every criteria with an
  importance threshold \<open>t\<close> and a limit \<open>n > 0\<close>, \<open>searchMemories\<close> returns at most \<open>n\<close>
  records, each of importance \<open>\<ge> t\<close>, in non-increasing order of importance; the result
  is the first \<open>\<lfloor>n\<rfloor>\<close> records of the sorted sequence (truncation comes after sorting),
  and sorting rearranges the filtered records without changing the relative order of
  records of equal importance.
\<close>

theorem searchMemories_threshold_limit:
  assumes "importance_threshold params = Some t" and "limit params = Some (Fin n)" and "0 < n"
  shows "real (length (searchMemories P s params)) \<le> n
       \<and> list_all (\<lambda>m. js_ge (importance m) t) (searchMemories P s params)
       \<and> sorted_wrt (\<lambda>a b. js_ge (importance a) (importance b)) (searchMemories P s params)
       \<and> searchMemories P s params = take (nat \<lfloor>n\<rfloor>) (Array_sort by_importance (filtered P s params))
       \<and> mset (Array_sort by_importance (filtered P s params)) = mset (filtered P s params)
       \<and> (\<forall>v. filter (\<lambda>m. importance m = v) (Array_sort by_importance (filtered P s params))
              = filter (\<lambda>m. importance m = v) (filtered P s params))"
proof -
  let ?sorted = "Array_sort by_importance (filtered P s params)"
  from assms have eq: "searchMemories P s params = slice0 ?sorted (Fin n)"
    by (simp add: searchMemories_def truthy_num_def Let_def)
  have ge: "\<forall>m\<in>set (filtered P s params). js_ge (importance m) t"
    using filtered_threshold[OF assms(1)] .
  then have nn: "\<forall>m\<in>set (filtered P s params). importance m \<noteq> NaN"
    using js_ge_not_NaN by blast
  have 1: "real (length (searchMemories P s params)) \<le> n"
    unfolding eq using length_slice0_pos[OF assms(3)] .
  have 2: "list_all (\<lambda>m. js_ge (importance m) t) (searchMemories P s params)"
    unfolding eq list_all_iff using ge set_slice0[of ?sorted "Fin n"] by (auto simp: set_Array_sort)
  have 3: "sorted_wrt (\<lambda>a b. js_ge (importance a) (importance b)) (searchMemories P s params)"
    unfolding eq using sorted_Array_sort[OF nn] by (rule sorted_slice0)
  have 4: "searchMemories P s params = take (nat \<lfloor>n\<rfloor>) ?sorted"
    unfolding eq using assms(3) by (simp add: to_integer_def)
  show ?thesis
    using 1 2 3 4 mset_Array_sort Array_sort_stable by blast
qed

lemma search_eval:
  "searchMemories (table_platform [] []) two_memories (threshold_limit (Fin (1/2)) n) =
     (if truthy_num n then slice0 [plain_memory ''1'' ''A'' (Fin (9/10)) 0, plain_memory ''2'' ''B'' (Fin (1/2)) 1] n
      else [plain_memory ''1'' ''A'' (Fin (9/10)) 0, plain_memory ''2'' ''B'' (Fin (1/2)) 1])"
  by (simp add: searchMemories_def filtered_def when_set_def threshold_limit_def no_criteria_def Let_def
      two_memories_eval js_ge_def plain_memory_fields Array_sort_def by_importance_def)

text \<open>
  C5 as stated fails for the limit 0: \<open>if (params.limit)\<close> reads 0 as no limit, and
  both records come back.
\<close>

theorem searchMemories_limit_zero:
  "searchMemories (table_platform [] []) two_memories (threshold_limit (Fin (1/2)) (Fin 0))
     = [plain_memory ''1'' ''A'' (Fin (9/10)) 0, plain_memory ''2'' ''B'' (Fin (1/2)) 1]
   \<and> \<not> real (length (searchMemories (table_platform [] []) two_memories (threshold_limit (Fin (1/2)) (Fin 0)))) \<le> 0"
  by (simp add: search_eval truthy_num_def)

theorem searchMemories_threshold_limit_witness:
  "importance_threshold (threshold_limit (Fin (1/2)) (Fin 1)) = Some (Fin (1/2))
   \<and> limit (threshold_limit (Fin (1/2)) (Fin 1)) = Some (Fin 1)
   \<and> (0::real) < 1
   \<and> searchMemories (table_platform [] []) two_memories (threshold_limit (Fin (1/2)) (Fin 1))
       = [plain_memory ''1'' ''A'' (Fin (9/10)) 0]
   \<and> real (length (searchMemories (table_platform [] []) two_memories (threshold_limit (Fin (1/2)) (Fin 1)))) \<le> 1
   \<and> list_all (\<lambda>m. js_ge (importance m) (Fin (1/2)))
        (searchMemories (table_platform [] []) two_memories (threshold_limit (Fin (1/2)) (Fin 1)))"
proof -
  have a: "importance_threshold (threshold_limit (Fin (1/2)) (Fin 1)) = Some (Fin (1/2))"
    and b: "limit (threshold_limit (Fin (1/2)) (Fin 1)) = Some (Fin 1)"
    by (simp_all add: threshold_limit_def no_criteria_def)
  have c: "(0::real) < 1" by simp
  have d: "searchMemories (table_platform [] []) two_memories (threshold_limit (Fin (1/2)) (Fin 1))
       = [plain_memory ''1'' ''A'' (Fin (9/10)) 0]"
    by (simp add: search_eval truthy_num_def to_integer_def)
  from searchMemories_threshold_limit[OF a b c, of "table_platform [] []" two_memories]
  have e: "real (length (searchMemories (table_platform [] []) two_memories (threshold_limit (Fin (1/2)) (Fin 1)))) \<le> 1
   \<and> list_all (\<lambda>m. js_ge (importance m) (Fin (1/2)))
        (searchMemories (table_platform [] []) two_memories (threshold_limit (Fin (1/2)) (Fin 1)))"
    by blast
  show ?thesis
    using a b c d e by blast
qed

section \<open>Properties of the prompt builder\<close>

text \<open>
  C10. For every user message, context string and search criteria, when the memory
  provider's search and the personality (taken from the criteria, or else from the
  personality provider) resolve, \<open>buildPrompt\<close> returns exactly three elements: the
  system message, the context message and, as third element, the user message as it
  was passed in.
\<close>

theorem buildPrompt_three_segments:
  assumes "memoryProvider (case memoryParams_arg of Some mp \<Rightarrow> mp | None \<Rightarrow> default_memoryParams)
             = Resolved relevantMemories"
      and "(case personality (case memoryParams_arg of Some mp \<Rightarrow> mp | None \<Rightarrow> default_memoryParams) of
              Some p \<Rightarrow> Resolved p | None \<Rightarrow> personalityProvider) = Resolved p"
  shows "buildPrompt P T memoryProvider personalityProvider userMessage context_arg memoryParams_arg =
           Resolved [systemMessage P T p (case context_arg of Some c \<Rightarrow> c | None \<Rightarrow> []),
                     contextMessage P T relevantMemories p (case context_arg of Some c \<Rightarrow> c | None \<Rightarrow> []),
                     userMessage]
         \<and> (\<exists>out. buildPrompt P T memoryProvider personalityProvider userMessage context_arg memoryParams_arg
                      = Resolved out \<and> length out = 3 \<and> out ! 2 = userMessage)"
  using assms by (simp add: buildPrompt_def Let_def)

theorem buildPrompt_three_segments_witness:
  "manager_provider (table_platform [] []) two_memories
       (case None of Some mp \<Rightarrow> mp | None \<Rightarrow> default_memoryParams)
     = Resolved (searchMemories (table_platform [] []) two_memories default_memoryParams)
   \<and> (case personality (case None of Some mp \<Rightarrow> mp | None \<Rightarrow> default_memoryParams) of
         Some p \<Rightarrow> Resolved p | None \<Rightarrow> Resolved ARIA_FROST_PERSONALITY) = Resolved ARIA_FROST_PERSONALITY
   \<and> (\<exists>out. buildPrompt (table_platform [] []) DEFAULT_TEMPLATE
                (manager_provider (table_platform [] []) two_memories) (Resolved ARIA_FROST_PERSONALITY)
                ''What were we discussing?'' None None = Resolved out
              \<and> length out = 3 \<and> out ! 2 = ''What were we discussing?'')"
proof -
  have a: "manager_provider (table_platform [] []) two_memories
       (case None of Some mp \<Rightarrow> mp | None \<Rightarrow> default_memoryParams)
     = Resolved (searchMemories (table_platform [] []) two_memories default_memoryParams)"
    by (simp add: manager_provider_def)
  have b: "(case personality (case None of Some mp \<Rightarrow> mp | None \<Rightarrow> default_memoryParams) of
         Some p \<Rightarrow> Resolved p | None \<Rightarrow> Resolved ARIA_FROST_PERSONALITY) = Resolved ARIA_FROST_PERSONALITY"
    by (simp add: default_memoryParams_def threshold_limit_def no_criteria_def)
  show ?thesis
    using a b
      buildPrompt_three_segments
        [where memoryParams_arg = None
           and memoryProvider = "manager_provider (table_platform [] []) two_memories"
           and relevantMemories = "searchMemories (table_platform [] []) two_memories default_memoryParams"
           and personalityProvider = "Resolved ARIA_FROST_PERSONALITY"
           and p = ARIA_FROST_PERSONALITY
           and P = "table_platform [] []" and T = DEFAULT_TEMPLATE
           and userMessage = "''What were we discussing?''" and context_arg = None]
    by blast
qed

text \<open>
  Whatever the collaborators do, \<open>buildPrompt\<close> either rejects (exactly when the search
  or the needed personality rejects) or returns three elements ending in the user
  message.
\<close>

lemma buildPrompt_shape:
  "buildPrompt P T memoryProvider personalityProvider userMessage context_arg memoryParams_arg = Rejected
   \<or> (\<exists>systemSegment contextSegment.
        buildPrompt P T memoryProvider personalityProvider userMessage context_arg memoryParams_arg
          = Resolved [systemSegment, contextSegment, userMessage])"
  by (simp add: buildPrompt_def Let_def split: settled.split option.split)

end
